theory Spec2Isabelle
  imports Complex_Main "HOL-Library.Word" "HOL-Library.Multiset" "HOL-Library.AList"
begin

section \<open>Event based risk: aggregation and reduction\<close>

text \<open>
  A shallow embedding of \<^verbatim>\<open>openquake/calculators/event_based_risk.py\<close> and of
  \<^verbatim>\<open>openquake/commonlib/calculators/event_based_agg.py\<close>.

  Conventions. A numpy array is a nested list, outermost axis first. The floating point
  cells (\<^verbatim>\<open>F32\<close>, \<^verbatim>\<open>F64\<close>) are real numbers: rounding is not modelled, so every statement
  about sums is a statement in exact arithmetic. The integer fields of the persisted record
  types (\<^verbatim>\<open>U64\<close>, \<^verbatim>\<open>U32\<close>, \<^verbatim>\<open>U16\<close>) are machine words. A Python exception is a value
  of type \<open>error\<close>, and a function that can raise returns \<open>error + 'a\<close>.
\<close>

subsection \<open>Exceptions\<close>

datatype error =
    IndexError
  | KeyError
  | ValueError string
  | AssertionError string
  | AttributeError

subsection \<open>Three-dimensional arrays\<close>

type_synonym 'a arr3 = "'a list list list"
type_synonym idx3 = "nat \<times> nat \<times> nat"

text \<open>\<^verbatim>\<open>numpy.zeros((E, R, K), F32)\<close>\<close>

definition zeros3 :: "nat \<Rightarrow> nat \<Rightarrow> nat \<Rightarrow> real arr3" where
  "zeros3 E R K = replicate E (replicate R (replicate K 0))"

text \<open>The shape of an array: the lengths of the innermost rows, position by position.\<close>

definition shape3 :: "'a arr3 \<Rightarrow> nat list list" where
  "shape3 a = map (map length) a"

fun in_bounds :: "'a arr3 \<Rightarrow> idx3 \<Rightarrow> bool" where
  "in_bounds a (e, r, k) = (e < length a \<and> r < length (a ! e) \<and> k < length (a ! e ! r))"

fun get3 :: "'a arr3 \<Rightarrow> idx3 \<Rightarrow> 'a" where
  "get3 a (e, r, k) = a ! e ! r ! k"

fun upd3 :: "'a arr3 \<Rightarrow> idx3 \<Rightarrow> 'a \<Rightarrow> 'a arr3" where
  "upd3 a (e, r, k) v = a[e := (a ! e)[r := (a ! e ! r)[k := v]]]"

text \<open>\<^verbatim>\<open>agg.nonzero()\<close>: the indices of the nonzero cells, in row-major order.\<close>

definition nonzero :: "real arr3 \<Rightarrow> idx3 list" where
  "nonzero a = [(e, r, k). e \<leftarrow> [0..<length a], r \<leftarrow> [0..<length (a ! e)],
                 k \<leftarrow> [0..<length (a ! e ! r)], a ! e ! r ! k \<noteq> 0]"

text \<open>Assignment through an index list writes the cells one after the other.\<close>

definition scatter :: "'a arr3 \<Rightarrow> (idx3 \<times> 'a) list \<Rightarrow> 'a arr3" where
  "scatter a ps = fold (\<lambda>(p, x) b. upd3 b p x) ps a"

text \<open>Broadcasting a one-dimensional operand against \<open>n\<close> selected cells.\<close>

definition broadcast :: "nat \<Rightarrow> real list \<Rightarrow> error + real list" where
  "broadcast n v =
     (if length v = n then Inr v
      else if length v = 1 then Inr (replicate n (v ! 0))
      else Inl (ValueError ''shape mismatch''))"

text \<open>
  \<^verbatim>\<open>a[idx] += v\<close> with an index list: numpy reads the selected cells, adds the operand and
  writes the sums back, so an index that occurs twice receives its last sum only.
\<close>

definition iadd_at :: "real arr3 \<Rightarrow> idx3 list \<Rightarrow> real list \<Rightarrow> error + real arr3" where
  "iadd_at a idx v =
     (if \<not> list_all (in_bounds a) idx then Inl IndexError
      else case broadcast (length idx) v of
             Inl e \<Rightarrow> Inl e
           | Inr w \<Rightarrow> Inr (scatter a (zip idx (map2 (+) (map (get3 a) idx) w))))"

subsection \<open>Sequencing of computations that can raise\<close>

definition and_then :: "error + 'a \<Rightarrow> ('a \<Rightarrow> error + 'b) \<Rightarrow> error + 'b" where
  "and_then m f = (case m of Inl e \<Rightarrow> Inl e | Inr x \<Rightarrow> f x)"

subsection \<open>The event loss table of \<^verbatim>\<open>EbrCalculator.post_execute\<close>\<close>

text \<open>
  \<^verbatim>\<open>elt_dt = numpy.dtype([('eid', U64), ('rlzi', U16), ('loss', (F32, (L * I,)))])\<close>
\<close>

record elt_rec =
  eid :: "64 word"
  rlzi :: "16 word"
  loss :: "real list"

text \<open>
  The generator that \<^verbatim>\<open>post_execute\<close> hands to \<^verbatim>\<open>numpy.fromiter\<close>:
  \<^verbatim>\<open>((e, r, loss) for e, losses in zip(self.eids, self.agglosses)
      for r, loss in enumerate(losses) if loss.sum())\<close>.
  The realization index \<open>r\<close> is stored in the \<^verbatim>\<open>U16\<close> field.
\<close>

definition agglosses_fromiter :: "64 word list \<Rightarrow> real arr3 \<Rightarrow> elt_rec list" where
  "agglosses_fromiter eids agglosses =
     [\<lparr>eid = e, rlzi = of_nat r, loss = l\<rparr>.
        (e, losses) \<leftarrow> zip eids agglosses, (r, l) \<leftarrow> enumerate 0 losses, sum_list l \<noteq> 0]"

text \<open>The records of one event, and the order of the table: by \<open>eid\<close>, then by \<open>rlzi\<close>.\<close>

definition row_records :: "64 word \<Rightarrow> real list list \<Rightarrow> elt_rec list" where
  "row_records e losses =
     [\<lparr>eid = e, rlzi = of_nat r, loss = l\<rparr>. (r, l) \<leftarrow> enumerate 0 losses, sum_list l \<noteq> 0]"


subsection \<open>The task \<^verbatim>\<open>ebr\<close> of \<^verbatim>\<open>event_based_agg.py\<close>\<close>

text \<open>
  \<^verbatim>\<open>elt_dt = numpy.dtype([('rup_id', numpy.uint32), ('loss', numpy.float32)])\<close>: a record is
  a pair, an array of records a list of pairs, and a cell of the cube a list of arrays.
\<close>

type_synonym rup_loss = "32 word \<times> real"
type_synonym loss_cube = "rup_loss list list arr3"

definition NUM_OUTPUTS :: nat where
  "NUM_OUTPUTS = 2"

text \<open>\<^verbatim>\<open>cube(O, L, R, factory)\<close>: every cell holds what the factory returns.\<close>

definition cube :: "nat \<Rightarrow> nat \<Rightarrow> nat \<Rightarrow> 'a \<Rightarrow> 'a arr3" where
  "cube O' L R x = replicate O' (replicate L (replicate R x))"

text \<open>
  One output of the risk model for one realization, and the outputs of one rupture slice
  (\<^verbatim>\<open>out_by_rlz\<close>, iterated in the order of the realizations).
\<close>

record out_ebr =
  loss_type :: string
  event_loss_per_asset :: "real list list"
  insured_loss_per_asset :: "real list list"

record out_by_rlz =
  rup_slice :: "nat \<times> nat"
  outs :: "out_ebr list"

text \<open>\<^verbatim>\<open>{lt: i for i, lt in enumerate(riskmodel.get_loss_types())}\<close>: a later index wins.\<close>

definition lt_idx :: "string list \<Rightarrow> (string \<rightharpoonup> nat)" where
  "lt_idx loss_types = map_of (rev (zip loss_types [0..<length loss_types]))"

text \<open>\<^verbatim>\<open>losses[o, lt, r].append(x)\<close>\<close>

definition cell_append :: "'a list arr3 \<Rightarrow> idx3 \<Rightarrow> 'a \<Rightarrow> error + 'a list arr3" where
  "cell_append c p x =
     (if in_bounds c p then Inr (upd3 c p (get3 c p @ [x])) else Inl IndexError)"

text \<open>
  The loop over \<^verbatim>\<open>zip(rup_ids, agg_losses, agg_ins_losses)\<close>: a one-record array is
  appended for a loss that is strictly positive, and none otherwise.
\<close>

fun ebr_events :: "nat \<Rightarrow> nat \<Rightarrow> (nat \<times> real \<times> real) list \<Rightarrow> loss_cube \<Rightarrow> error + loss_cube" where
  "ebr_events lt ordinal [] losses = Inr losses"
| "ebr_events lt ordinal ((rup_id, loss', ins_loss) # rest) losses =
     and_then (if loss' > 0 then cell_append losses (0, lt, ordinal) [(of_nat rup_id, loss')]
               else Inr losses)
       (\<lambda>losses1.
          and_then (if ins_loss > 0
                    then cell_append losses1 (1, lt, ordinal) [(of_nat rup_id, ins_loss)]
                    else Inr losses1)
            (ebr_events lt ordinal rest))"

text \<open>The loop over \<^verbatim>\<open>zip(rlzs_assoc.realizations, out_by_rlz)\<close>; a realization is its ordinal.\<close>

fun ebr_rlzs :: "string list \<Rightarrow> nat list \<Rightarrow> (nat \<times> out_ebr) list \<Rightarrow> loss_cube \<Rightarrow> error + loss_cube" where
  "ebr_rlzs loss_types rup_ids [] losses = Inr losses"
| "ebr_rlzs loss_types rup_ids ((ordinal, out) # rest) losses =
     (case lt_idx loss_types (loss_type out) of
        None \<Rightarrow> Inl KeyError
      | Some lt \<Rightarrow>
          (let agg_losses = map sum_list (event_loss_per_asset out);
               agg_ins_losses = map sum_list (insured_loss_per_asset out)
           in and_then (ebr_events lt ordinal (zip rup_ids (zip agg_losses agg_ins_losses)) losses)
                (ebr_rlzs loss_types rup_ids rest)))"

text \<open>The loop over the outputs that \<^verbatim>\<open>riskmodel.gen_outputs\<close> yields.\<close>

fun ebr_outputs :: "string list \<Rightarrow> nat list \<Rightarrow> out_by_rlz list \<Rightarrow> loss_cube \<Rightarrow> error + loss_cube" where
  "ebr_outputs loss_types realizations [] losses = Inr losses"
| "ebr_outputs loss_types realizations (obr # rest) losses =
     (let rup_ids = [fst (rup_slice obr)..<snd (rup_slice obr)]
      in and_then (ebr_rlzs loss_types rup_ids (zip realizations (outs obr)) losses)
           (ebr_outputs loss_types realizations rest))"

text \<open>\<^verbatim>\<open>if arrays: losses[idx] = [numpy.concatenate(arrays)]\<close>, for every cell.\<close>

definition concatenate_cells :: "loss_cube \<Rightarrow> loss_cube" where
  "concatenate_cells losses =
     map (map (map (\<lambda>arrays. if arrays \<noteq> [] then [concat arrays] else arrays))) losses"

definition ebr :: "string list \<Rightarrow> nat list \<Rightarrow> out_by_rlz list \<Rightarrow> error + loss_cube" where
  "ebr loss_types realizations outputs =
     and_then
       (ebr_outputs loss_types realizations outputs
          (cube NUM_OUTPUTS (length (remdups loss_types)) (length realizations) []))
       (\<lambda>losses. Inr (concatenate_cells losses))"

text \<open>Every record of every array of every cell carries a strictly positive loss.\<close>

definition positive_cells :: "loss_cube \<Rightarrow> bool" where
  "positive_cells c =
     (\<forall>p. in_bounds c p \<longrightarrow> (\<forall>arr \<in> set (get3 c p). \<forall>rl \<in> set arr. 0 < snd rl))"

subsection \<open>The epsilons of \<^verbatim>\<open>EventBasedRiskCalculator.pre_execute\<close>\<close>

text \<open>
  A Python dictionary whose order of insertion matters to nobody is an association list
  read with \<open>map_of\<close>; \<^verbatim>\<open>len(d)\<close> counts its keys.
\<close>

type_synonym ('k, 'v) dict = "('k \<times> 'v) list"

definition len_dict :: "('k, 'v) dict \<Rightarrow> nat" where
  "len_dict d = length (remdups (map fst d))"

text \<open>\<^verbatim>\<open>[d[k] for k in ks]\<close>: the first missing key raises \<^verbatim>\<open>KeyError\<close>.\<close>

fun lookup_all :: "('k, 'v) dict \<Rightarrow> 'k list \<Rightarrow> error + 'v list" where
  "lookup_all d [] = Inr []"
| "lookup_all d (k # ks) =
     (case map_of d k of
        None \<Rightarrow> Inl KeyError
      | Some v \<Rightarrow> and_then (lookup_all d ks) (\<lambda>vs. Inr (v # vs)))"

text \<open>
  What \<^verbatim>\<open>pre_execute\<close> computes about the epsilons: the number of samples it asks for, the
  number it logs as generated, and the matrix it stores.
\<close>

record eps_state =
  num_samples :: nat
  generated :: nat
  epsilon_matrix :: "real list list"

text \<open>
  Lines 119 to 126 of \<^verbatim>\<open>event_based_agg.py\<close>:
  \<^verbatim>\<open>num_samples = min(len(all_ruptures), epsilon_sampling)\<close>,
  \<^verbatim>\<open>eps_dict = riskinput.make_eps_dict(assets_by_site, num_samples, ...)\<close>,
  \<^verbatim>\<open>logging.info('Generated %d epsilons', num_samples * len(eps_dict))\<close>,
  \<^verbatim>\<open>self.epsilon_matrix = numpy.array([eps_dict[a['asset_ref']] for a in self.assetcol])\<close>.
  The function \<^verbatim>\<open>riskinput.make_eps_dict\<close> belongs to another module and is the parameter
  \<open>make_eps_dict\<close>, with the seed and the correlation folded into it; the asset collection
  is the list of its asset references.
\<close>

definition pre_execute_epsilons ::
    "(string list \<Rightarrow> nat \<Rightarrow> (string, real list) dict) \<Rightarrow> string list \<Rightarrow> string list \<Rightarrow>
     'r list \<Rightarrow> nat \<Rightarrow> error + eps_state" where
  "pre_execute_epsilons make_eps_dict assets_by_site assetcol all_ruptures epsilon_sampling =
     (let n = min (length all_ruptures) epsilon_sampling;
          eps_dict = make_eps_dict assets_by_site n
      in and_then (lookup_all eps_dict assetcol)
           (\<lambda>m. Inr \<lparr>num_samples = n, generated = n * len_dict eps_dict, epsilon_matrix = m\<rparr>))"

subsection \<open>The task \<^verbatim>\<open>event_based_risk\<close>\<close>

text \<open>A \<^verbatim>\<open>for\<close> loop whose body can raise: the first exception ends the loop.\<close>

fun foldE :: "('a \<Rightarrow> 's \<Rightarrow> error + 's) \<Rightarrow> 'a list \<Rightarrow> 's \<Rightarrow> error + 's" where
  "foldE f [] s = Inr s"
| "foldE f (x # xs) s = and_then (f x s) (foldE f xs)"

text \<open>
  The inputs of the task. An asset has its ordinal and its value per loss type
  (\<^verbatim>\<open>asset.value(loss_type)\<close>). An output of \<^verbatim>\<open>riskmodel.gen_outputs\<close> has the event ids
  \<^verbatim>\<open>out.eids\<close>, the realization \<^verbatim>\<open>out.rlzi\<close>, the assets \<^verbatim>\<open>out.assets\<close> and, iterated over,
  one array of loss ratios per loss type, of shape \<open>(A, E, I)\<close>, or \<^verbatim>\<open>None\<close>.
\<close>

record asset =
  asset_ordinal :: nat
  asset_value :: "string \<Rightarrow> real"

record risk_output =
  out_eids :: "64 word list"
  out_rlzi :: nat
  out_assets :: "asset list"
  out_loss_ratios :: "real list list list option list"

text \<open>
  The curve builder \<^verbatim>\<open>param['builder']\<close> belongs to another module: the task reads its
  weights, the field names of its \<^verbatim>\<open>loss_dt\<close>, and calls \<^verbatim>\<open>build_curve\<close>.
\<close>

record loss_builder =
  weights :: "real list"
  loss_dt_names :: "string list"
  build_curve :: "real \<Rightarrow> real list \<Rightarrow> nat \<Rightarrow> real list"

text \<open>
  The dictionary \<^verbatim>\<open>param\<close>; \<^verbatim>\<open>insured_losses\<close> is a boolean used as a number, and the
  builder is present or not (\<^verbatim>\<open>'builder' in param\<close>).
\<close>

record param =
  insured_losses :: nat
  avg_losses :: bool
  ses_ratio :: real
  builder :: "loss_builder option"

text \<open>
  The risk input: \<^verbatim>\<open>riskinput.aids\<close>, \<^verbatim>\<open>riskinput.by_site\<close>, and of its hazard getter the
  event ids, the table \<^verbatim>\<open>eid2idx\<close> and the number of realizations. The hazard getter belongs
  to another module, so the table \<^verbatim>\<open>eid2idx\<close> is given, not computed.
\<close>

record riskinput =
  ri_aids :: "nat list"
  ri_by_site :: bool
  hg_eids :: "64 word list"
  hg_eid2idx :: "(64 word, nat) dict"
  hg_num_rlzs :: nat

text \<open>
  A value of the \<^verbatim>\<open>AccumDict\<close> \<^verbatim>\<open>avg\<close>: a dictionary from asset ordinals to numbers when the
  default is \<^verbatim>\<open>{}\<close>, an array indexed by them when it is \<^verbatim>\<open>numpy.zeros(A, F64)\<close>.
\<close>

datatype lba = Dict "(nat, real) dict" | Array "real list"

text \<open>The accumulators of the task: \<^verbatim>\<open>agg\<close>, \<^verbatim>\<open>avg\<close> and \<^verbatim>\<open>all_curves\<close>.\<close>

record task_state =
  st_agg :: "real arr3"
  st_avg :: "(nat \<times> nat, lba) dict"
  st_all_curves :: "(nat \<times> nat \<times> string, real list) dict"

text \<open>
  \<^verbatim>\<open>accum={} if riskinput.by_site or not param['avg_losses'] else numpy.zeros(A, F64)\<close>
\<close>

definition accum :: "riskinput \<Rightarrow> param \<Rightarrow> lba" where
  "accum ri p =
     (if ri_by_site ri \<or> \<not> avg_losses p then Dict []
      else Array (replicate (length (ri_aids ri)) 0))"

text \<open>
  \<^verbatim>\<open>avg[key]\<close>: a missing key gets a copy of the default. The copy is stored under the key
  by the update that follows the read.
\<close>

definition getitem_accum :: "lba \<Rightarrow> (nat \<times> nat, lba) dict \<Rightarrow> nat \<times> nat \<Rightarrow> lba" where
  "getitem_accum dflt avg key = (case map_of avg key of Some lba \<Rightarrow> lba | None \<Rightarrow> dflt)"

text \<open>
  \<^verbatim>\<open>try: lba[aid] += x\<close>, \<^verbatim>\<open>except KeyError: lba[aid] = x\<close>. An array raises
  \<^verbatim>\<open>IndexError\<close> outside its bounds, which is not caught.
\<close>

fun iadd_lba :: "lba \<Rightarrow> nat \<Rightarrow> real \<Rightarrow> error + lba" where
  "iadd_lba (Dict d) aid x =
     Inr (Dict (AList.update aid (case map_of d aid of Some y \<Rightarrow> y + x | None \<Rightarrow> x) d))"
| "iadd_lba (Array a) aid x =
     (if aid < length a then Inr (Array (a[aid := a ! aid + x])) else Inl IndexError)"

text \<open>\<^verbatim>\<open>ratios[:, i]\<close> for an array of shape \<open>(E, I)\<close>, a list of \<open>E\<close> rows.\<close>

definition column :: "real list list \<Rightarrow> nat \<Rightarrow> error + real list" where
  "column m i =
     (if list_all (\<lambda>row. i < length row) m then Inr (map (\<lambda>row. row ! i) m)
      else Inl IndexError)"

text \<open>
  \<^verbatim>\<open>{aid: idx for idx, aid in enumerate(riskinput.aids)}\<close>: a later index wins.
\<close>

definition aid2idx :: "nat list \<Rightarrow> (nat \<rightharpoonup> nat)" where
  "aid2idx aids' = map_of (rev (zip aids' [0..<length aids']))"

text \<open>
  \<^verbatim>\<open>all_curves[idx, r][lt] = builder.build_curve(aval, ratios[:, i], r)\<close> with
  \<^verbatim>\<open>lt = loss_type + '_ins' * i\<close>. The buffer has \<^verbatim>\<open>len(builder.weights)\<close> realizations and
  the fields of \<^verbatim>\<open>builder.loss_dt\<close>; it is kept as the dictionary of the cells assigned.
\<close>

definition curve_i ::
    "loss_builder \<Rightarrow> string \<Rightarrow> real \<Rightarrow> real list list \<Rightarrow> nat \<Rightarrow> nat \<Rightarrow> nat \<Rightarrow> task_state
     \<Rightarrow> error + task_state" where
  "curve_i b ltype aval ratios idx r i st =
     (let lt = ltype @ concat (replicate i ''_ins'') in
      and_then (column ratios i)
        (\<lambda>c. if r < length (weights b) then
               if lt \<in> set (loss_dt_names b) then
                 Inr (st\<lparr>st_all_curves :=
                           AList.update (idx, r, lt) (build_curve b aval c r) (st_all_curves st)\<rparr>)
               else Inl (ValueError ''no field of name'')
             else Inl IndexError))"

text \<open>
  The average losses, for one asset and one \<open>i\<close>:
  \<^verbatim>\<open>rat = ratios.sum(axis=0) * param['ses_ratio']\<close>, \<^verbatim>\<open>lba = avg[l + L * i, r]\<close>, and
  \<^verbatim>\<open>lba[aid] += rat[i]\<close> or, on \<^verbatim>\<open>KeyError\<close>, \<^verbatim>\<open>lba[aid] = rat[i]\<close>.
\<close>

definition avg_losses_i ::
    "lba \<Rightarrow> real \<Rightarrow> nat \<Rightarrow> nat \<Rightarrow> nat \<Rightarrow> nat \<Rightarrow> real list list \<Rightarrow> nat \<Rightarrow> task_state
     \<Rightarrow> error + task_state" where
  "avg_losses_i dflt ses L r l aid ratios i st =
     and_then (column ratios i)
       (\<lambda>c. let key = (l + L * i, r);
                lba = getitem_accum dflt (st_avg st) key
            in and_then (iadd_lba lba aid (sum_list c * ses))
                 (\<lambda>lba'. Inr (st\<lparr>st_avg := AList.update key lba' (st_avg st)\<rparr>)))"

text \<open>
  The aggregate losses, for one asset and one \<open>i\<close>: \<^verbatim>\<open>li = l + L * i\<close> and
  \<^verbatim>\<open>agg[indices, r, li] += losses[:, i]\<close> with \<^verbatim>\<open>losses = aval * ratios\<close>.
\<close>

definition agglosses_i ::
    "nat \<Rightarrow> nat \<Rightarrow> nat \<Rightarrow> nat list \<Rightarrow> real \<Rightarrow> real list list \<Rightarrow> nat \<Rightarrow> task_state
     \<Rightarrow> error + task_state" where
  "agglosses_i L r l indices aval ratios i st =
     and_then (column ratios i)
       (\<lambda>c. and_then
              (iadd_at (st_agg st) (map (\<lambda>k. (k, r, l + L * i)) indices) (map ((*) aval) c))
              (\<lambda>agg'. Inr (st\<lparr>st_agg := agg'\<rparr>)))"

text \<open>
  The block \<^verbatim>\<open>if param['avg_losses']: ... for i in range(I): ...\<close> for one asset.
\<close>

definition average_losses ::
    "riskinput \<Rightarrow> param \<Rightarrow> nat \<Rightarrow> nat \<Rightarrow> nat \<Rightarrow> nat \<Rightarrow> real list list \<Rightarrow> task_state
     \<Rightarrow> error + task_state" where
  "average_losses ri p L r l aid ratios st =
     (if avg_losses p
      then foldE (avg_losses_i (accum ri p) (ses_ratio p) L r l aid ratios)
             [0..<insured_losses p + 1] st
      else Inr st)"

text \<open>The body of \<^verbatim>\<open>for a, asset in enumerate(out.assets)\<close>.\<close>

definition asset_step ::
    "riskinput \<Rightarrow> param \<Rightarrow> nat \<Rightarrow> string \<Rightarrow> nat \<Rightarrow> nat \<Rightarrow> nat list \<Rightarrow> real list list list \<Rightarrow>
     nat \<times> asset \<Rightarrow> task_state \<Rightarrow> error + task_state" where
  "asset_step ri p L ltype r l indices loss_ratios aa st =
     (let a = fst aa; asset = snd aa; I = insured_losses p + 1 in
      if a < length loss_ratios then
        (let ratios = loss_ratios ! a;
             aid = asset_ordinal asset;
             aval = asset_value asset ltype
         in and_then
              (case builder p of
                 None \<Rightarrow> Inr st
               | Some b \<Rightarrow>
                   (case aid2idx (ri_aids ri) aid of
                      None \<Rightarrow> Inl KeyError
                    | Some idx \<Rightarrow> foldE (curve_i b ltype aval ratios idx r) [0..<I] st))
              (\<lambda>st1. and_then (average_losses ri p L r l aid ratios st1)
                 (foldE (agglosses_i L r l indices aval ratios) [0..<I])))
      else Inl IndexError)"

text \<open>
  The body of \<^verbatim>\<open>for l, loss_ratios in enumerate(out)\<close>: \<^verbatim>\<open>None\<close> is skipped by
  \<^verbatim>\<open>continue\<close>; otherwise \<^verbatim>\<open>loss_type = riskmodel.loss_types[l]\<close>,
  \<^verbatim>\<open>indices = numpy.array([eid2idx[eid] for eid in out.eids])\<close>, and the loop over the assets.
\<close>

fun loss_type_step ::
    "riskinput \<Rightarrow> param \<Rightarrow> nat \<Rightarrow> string list \<Rightarrow> risk_output \<Rightarrow>
     nat \<times> real list list list option \<Rightarrow> task_state \<Rightarrow> error + task_state" where
  "loss_type_step ri p L lts out (l, None) st = Inr st"
| "loss_type_step ri p L lts out (l, Some loss_ratios) st =
     (if l < length lts then
        and_then (lookup_all (hg_eid2idx ri) (out_eids out))
          (\<lambda>indices. foldE (asset_step ri p L (lts ! l) (out_rlzi out) l indices loss_ratios)
                       (enumerate 0 (out_assets out)) st)
      else Inl IndexError)"

text \<open>
  The body of \<^verbatim>\<open>for out in riskmodel.gen_outputs(riskinput, monitor)\<close>; an output without
  events is skipped.
\<close>

definition out_step ::
    "riskinput \<Rightarrow> param \<Rightarrow> nat \<Rightarrow> string list \<Rightarrow> risk_output \<Rightarrow> task_state \<Rightarrow> error + task_state" where
  "out_step ri p L lts out st =
     (if length (out_eids out) = 0 then Inr st
      else foldE (loss_type_step ri p L lts out) (enumerate 0 (out_loss_ratios out)) st)"

text \<open>
  The dictionary that the task returns: the asset ordinals, the average losses, the
  aggregate losses as \<^verbatim>\<open>(idx, agg[idx])\<close> with \<^verbatim>\<open>idx = agg.nonzero()\<close>, and the curve buffer,
  from which \<^verbatim>\<open>builder.pair\<close> and \<^verbatim>\<open>builder.build_maps\<close> of the other module compute the
  curves and maps.
\<close>

record task_result =
  res_aids :: "nat list"
  res_avglosses :: "(nat \<times> nat, lba) dict"
  res_agglosses :: "idx3 list \<times> real list"
  res_all_curves :: "(nat \<times> nat \<times> string, real list) dict"

text \<open>
  The task. \<open>L\<close> is \<^verbatim>\<open>len(riskmodel.lti)\<close>, \<open>lts\<close> is \<^verbatim>\<open>riskmodel.loss_types\<close> and \<open>gen_outputs\<close> is
  what \<^verbatim>\<open>riskmodel.gen_outputs\<close> yields.
\<close>

definition event_based_risk ::
    "riskinput \<Rightarrow> nat \<Rightarrow> string list \<Rightarrow> risk_output list \<Rightarrow> param \<Rightarrow> error + task_result" where
  "event_based_risk ri L lts gen_outputs p =
     (let E = length (hg_eids ri);
          I = insured_losses p + 1;
          R = hg_num_rlzs ri;
          st0 = \<lparr>st_agg = zeros3 E R (L * I), st_avg = [], st_all_curves = []\<rparr>
      in and_then (foldE (out_step ri p L lts) gen_outputs st0)
           (\<lambda>st. let idx = nonzero (st_agg st)
                 in Inr \<lparr>res_aids = ri_aids ri, res_avglosses = st_avg st,
                         res_agglosses = (idx, map (get3 (st_agg st)) idx),
                         res_all_curves = st_all_curves st\<rparr>))"

text \<open>
  What an average-loss accumulator holds for an asset: zero for an asset, or under a key,
  that was never touched.
\<close>

fun lba_get :: "lba \<Rightarrow> nat \<Rightarrow> real" where
  "lba_get (Dict d) aid = (case map_of d aid of Some y \<Rightarrow> y | None \<Rightarrow> 0)"
| "lba_get (Array a) aid = (if aid < length a then a ! aid else 0)"


subsection \<open>The calculator \<^verbatim>\<open>EbrCalculator\<close>\<close>

text \<open>
  The parameters \<^verbatim>\<open>oqparam\<close> that the calculator reads. \<^verbatim>\<open>'gmfs' in oq.inputs\<close> is a
  boolean; the minimum intensity is a value of any type, compared with \<^verbatim>\<open>!=\<close>.
\<close>

record 'm oqparam =
  gmfs_in_inputs :: bool
  hazard_calculation_id :: "nat option"
  investigation_time :: real
  minimum_intensity :: 'm
  ses_per_logic_tree_path :: nat
  oq_insured_losses :: nat
  oq_avg_losses :: bool

text \<open>\<^verbatim>\<open>if oq.hazard_calculation_id\<close>: \<^verbatim>\<open>None\<close> and zero are false.\<close>

definition truthy :: "nat option \<Rightarrow> bool" where
  "truthy x = (case x of None \<Rightarrow> False | Some n \<Rightarrow> n \<noteq> 0)"

text \<open>
  What \<^verbatim>\<open>pre_execute\<close> gets from the rest of the engine: the outcome of
  \<^verbatim>\<open>super().pre_execute()\<close>, the parameters and the event ids of the parent calculation,
  the event ids of its own datastore, and the outcome of running the hazard calculator
  \<^verbatim>\<open>ebcalc\<close>, which on success gives the event ids of the datastore of \<^verbatim>\<open>ebcalc\<close>.
\<close>

record 'm pre_env =
  super_pre_execute :: "error + unit"
  parent_oqparam :: "'m oqparam"
  parent_events_eid :: "64 word list"
  datastore_events_eid :: "64 word list"
  ebcalc_run :: "error + 64 word list"

text \<open>
  The first part of \<^verbatim>\<open>pre_execute\<close> (lines 158 to 188) finds the parent: \<^verbatim>\<open>()\<close> with a file
  of ground motion fields, the parent calculation when \<^verbatim>\<open>hazard_calculation_id\<close> is given
  and its parameters agree, the datastore of \<^verbatim>\<open>ebcalc\<close> otherwise. The result is the event
  ids \<^verbatim>\<open>parent['events']['eid']\<close> of the parent, if there is one. The messages of the
  exceptions are kept without the numbers formatted into them.
\<close>

definition pre_execute_parent :: "'m oqparam \<Rightarrow> 'm pre_env \<Rightarrow> error + 64 word list option" where
  "pre_execute_parent oq env =
     (if gmfs_in_inputs oq then
        if truthy (hazard_calculation_id oq)
        then Inl (AssertionError ''You cannot use --hc together with gmfs_file'')
        else and_then (super_pre_execute env) (\<lambda>u. Inr None)
      else if truthy (hazard_calculation_id oq) then
        and_then (super_pre_execute env)
          (\<lambda>u. if investigation_time (parent_oqparam env) \<noteq> investigation_time oq
               then Inl (ValueError ''The parent calculation was using investigation_time'')
               else if minimum_intensity (parent_oqparam env) \<noteq> minimum_intensity oq
               then Inl (ValueError ''The parent calculation was using minimum_intensity'')
               else Inr (Some (parent_events_eid env)))
      else and_then (ebcalc_run env) (\<lambda>evs. Inr (Some evs)))"

text \<open>
  The attributes of the calculator that the aggregation uses. The epsilons are what the
  epsilon getter of the other module returns; \<^verbatim>\<open>self.vals\<close> is \<^verbatim>\<open>self.assetcol.values()\<close>,
  by loss type and asset ordinal, and \<^verbatim>\<open>self_loss_types\<close> is \<^verbatim>\<open>self.riskmodel.loss_types\<close>.
\<close>

record 'e calc =
  self_eids :: "64 word list"
  self_E :: nat
  self_eps :: 'e
  self_A :: nat
  self_R :: nat
  self_L :: nat
  self_I :: nat
  self_loss_types :: "string list"
  self_vals :: "string \<Rightarrow> real list"
  self_agglosses :: "real arr3"
  self_dset :: "real arr3 option"
  self_taskno :: nat

text \<open>
  The rest of \<^verbatim>\<open>pre_execute\<close> (lines 190 to 225): \<^verbatim>\<open>self.eids = sorted(...)\<close>,
  \<^verbatim>\<open>self.E = len(self.eids)\<close>, the epsilons from
  \<^verbatim>\<open>riskinput.make_epsilon_getter(len(self.assetcol), self.E, ...)()\<close>, the dataset
  \<^verbatim>\<open>avg_losses-rlzs\<close> of shape \<open>(A, R, L * I)\<close> when the average losses are enabled, and
  \<^verbatim>\<open>self.agglosses = numpy.zeros((self.E, self.R, self.L * self.I), F32)\<close>. The function
  \<^verbatim>\<open>make_epsilon_getter\<close> belongs to another module and is a parameter, with the
  correlation and the seed folded into it; so are \<open>A\<close>, \<open>R\<close>, \<open>L\<close>, the loss types and the
  values of the assets, which come from the asset collection and the risk model.
\<close>

definition pre_execute ::
    "'m oqparam \<Rightarrow> 'm pre_env \<Rightarrow> nat \<Rightarrow> nat \<Rightarrow> nat \<Rightarrow> string list \<Rightarrow> (string \<Rightarrow> real list) \<Rightarrow>
     (nat \<Rightarrow> nat \<Rightarrow> 'e) \<Rightarrow> error + 'e calc" where
  "pre_execute oq env A R L lts vals make_epsilon_getter =
     and_then (pre_execute_parent oq env)
       (\<lambda>parent.
          let I = oq_insured_losses oq + 1;
              eids' = (case parent of
                         Some evs \<Rightarrow> sort evs
                       | None \<Rightarrow> sort (datastore_events_eid env));
              E = length eids'
          in Inr \<lparr>self_eids = eids', self_E = E, self_eps = make_epsilon_getter A E,
                  self_A = A, self_R = R, self_L = L, self_I = I,
                  self_loss_types = lts, self_vals = vals,
                  self_agglosses = zeros3 E R (L * I),
                  self_dset = (if oq_avg_losses oq then Some (zeros3 A R (L * I)) else None),
                  self_taskno = 0\<rparr>)"

text \<open>
  \<^verbatim>\<open>[ratios.get(aid, 0) * vs[aid] for aid in aids]\<close>: an array has no method \<^verbatim>\<open>get\<close>.
\<close>

fun get_times_values :: "lba \<Rightarrow> real list \<Rightarrow> nat list \<Rightarrow> error + real list" where
  "get_times_values ratios vs [] = Inr []"
| "get_times_values (Array a) vs (aid # aids') = Inl AttributeError"
| "get_times_values (Dict d) vs (aid # aids') =
     (if aid < length vs
      then and_then (get_times_values (Dict d) vs aids')
             (\<lambda>xs. Inr ((case map_of d aid of Some y \<Rightarrow> y | None \<Rightarrow> 0) * vs ! aid # xs))
      else Inl IndexError)"

text \<open>
  The body of \<^verbatim>\<open>for (li, r), ratios in avglosses.items()\<close>:
  \<^verbatim>\<open>l = li if li < self.L else li - self.L\<close>,
  \<^verbatim>\<open>vs = self.vals[self.riskmodel.loss_types[l]]\<close> and
  \<^verbatim>\<open>self.dset[aids, r, li] += numpy.array([...])\<close>. The dataset exists when
  \<^verbatim>\<open>pre_execute\<close> created it. The cells \<^verbatim>\<open>self.dset[aids, r, li]\<close> are read, the operand is
  computed and added, and the sums are written back. The dataset of the datastore accepts
  an index list only when it is increasing; for such a list this is what it does.
\<close>

definition save_avglosses ::
    "nat \<Rightarrow> string list \<Rightarrow> (string \<Rightarrow> real list) \<Rightarrow> nat list \<Rightarrow> (nat \<times> nat) \<times> lba \<Rightarrow>
     real arr3 option \<Rightarrow> error + real arr3 option" where
  "save_avglosses L lts vals aids' item dset =
     (let li = fst (fst item); r = snd (fst item); ratios = snd item;
          l = (if li < L then li else li - L)
      in if l < length lts then
           (case dset of
              None \<Rightarrow> Inl AttributeError
            | Some d \<Rightarrow>
                if list_all (in_bounds d) (map (\<lambda>aid. (aid, r, li)) aids') then
                  and_then (get_times_values ratios (vals (lts ! l)) aids')
                    (\<lambda>x. and_then (iadd_at d (map (\<lambda>aid. (aid, r, li)) aids') x)
                           (\<lambda>d'. Inr (Some d')))
                else Inl IndexError)
         else Inl IndexError)"

text \<open>
  \<^verbatim>\<open>save_losses\<close>: \<^verbatim>\<open>self.agglosses[idx] += agg\<close>, the loop over the average losses, and
  \<^verbatim>\<open>self.taskno += 1\<close>. The curves and maps that \<^verbatim>\<open>_save_curves\<close> and \<^verbatim>\<open>_save_maps\<close>
  write go to datasets of their own, which are not part of this state.
\<close>

definition save_losses :: "'e calc \<Rightarrow> task_result \<Rightarrow> error + 'e calc" where
  "save_losses self dic =
     and_then (iadd_at (self_agglosses self) (fst (res_agglosses dic)) (snd (res_agglosses dic)))
       (\<lambda>agglosses'.
          and_then (foldE (save_avglosses (self_L self) (self_loss_types self) (self_vals self)
                             (res_aids dic))
                      (res_avglosses dic) (self_dset self))
            (\<lambda>dset'. Inr (self\<lparr>self_agglosses := agglosses', self_dset := dset',
                                self_taskno := self_taskno self + 1\<rparr>)))"



text \<open>What \<^verbatim>\<open>a[idx] += w\<close> adds to the cell \<open>q\<close>: the last operand given for it.\<close>

definition delta :: "idx3 list \<Rightarrow> real list \<Rightarrow> idx3 \<Rightarrow> real" where
  "delta idx w q = (case map_of (rev (zip idx w)) q of None \<Rightarrow> 0 | Some x \<Rightarrow> x)"

subsection \<open>The reduction \<^verbatim>\<open>EventBasedRiskCalculator.agg\<close> of \<^verbatim>\<open>event_based_agg.py\<close>\<close>




section \<open>Properties of the array operations\<close>

lemma in_bounds_shape3:
  assumes "shape3 a = shape3 b"
  shows "in_bounds a p = in_bounds b p"
proof -
  obtain e r k where p: "p = (e, r, k)" by (cases p)
  from assms have len: "length a = length b"
    unfolding shape3_def by (metis length_map)
  have row: "e < length a \<Longrightarrow> map length (a ! e) = map length (b ! e)"
    using assms len unfolding shape3_def by (metis nth_map)
  have rlen: "e < length a \<Longrightarrow> length (a ! e) = length (b ! e)"
    using row by (metis length_map)
  have cell: "e < length a \<Longrightarrow> r < length (a ! e) \<Longrightarrow> length (a ! e ! r) = length (b ! e ! r)"
    using row rlen by (metis nth_map)
  show ?thesis using len rlen cell by (auto simp: p)
qed

lemma shape3_upd3: "shape3 (upd3 a p v) = shape3 a"
proof -
  obtain e r k where p: "p = (e, r, k)" by (cases p)
  have inner: "map length ((a ! e)[r := (a ! e ! r)[k := v]]) = map length (a ! e)"
    by (cases "r < length (a ! e)") (simp_all add: list_update_same_conv map_update list_update_beyond)
  have "(map (map length) a)[e := map length ((a ! e)[r := (a ! e ! r)[k := v]])] = map (map length) a"
    unfolding inner by (cases "e < length a") (simp_all add: list_update_same_conv list_update_beyond)
  then show ?thesis
    unfolding p shape3_def by (simp add: map_update)
qed

lemma get3_upd3:
  assumes "in_bounds a p"
  shows "get3 (upd3 a p v) q = (if q = p then v else get3 a q)"
proof -
  obtain e r k where p: "p = (e, r, k)" by (cases p)
  obtain e' r' k' where q: "q = (e', r', k')" by (cases q)
  show ?thesis using assms
    by (auto simp: p q nth_list_update)
qed

lemma arr3_eqI:
  assumes sh: "shape3 a = shape3 b"
    and pt: "\<And>p. in_bounds a p \<Longrightarrow> get3 a p = get3 b p"
  shows "a = b"
proof (rule nth_equalityI)
  show len: "length a = length b"
    using sh unfolding shape3_def by (metis length_map)
  fix e assume e: "e < length a"
  have row: "map length (a ! e) = map length (b ! e)"
    using sh len e unfolding shape3_def by (metis nth_map)
  show "a ! e = b ! e"
  proof (rule nth_equalityI)
    show rlen: "length (a ! e) = length (b ! e)"
      using row by (metis length_map)
    fix r assume r: "r < length (a ! e)"
    have clen: "length (a ! e ! r) = length (b ! e ! r)"
      using row r rlen by (metis nth_map)
    show "a ! e ! r = b ! e ! r"
    proof (rule nth_equalityI)
      show "length (a ! e ! r) = length (b ! e ! r)" by (rule clen)
      fix k assume k: "k < length (a ! e ! r)"
      from e r k have "in_bounds a (e, r, k)" by simp
      from pt[OF this] show "a ! e ! r ! k = b ! e ! r ! k" by simp
    qed
  qed
qed

lemma scatter_Nil: "scatter a [] = a"
  by (simp add: scatter_def)

lemma scatter_snoc: "scatter a (ps @ [(p, x)]) = upd3 (scatter a ps) p x"
  by (simp add: scatter_def)

lemma shape3_scatter: "shape3 (scatter a ps) = shape3 a"
  by (induction ps rule: rev_induct)
     (auto simp: scatter_Nil scatter_snoc shape3_upd3 simp del: upd3.simps)

lemma in_bounds_scatter: "in_bounds (scatter a ps) p = in_bounds a p"
  by (rule in_bounds_shape3[OF shape3_scatter])

lemma get3_scatter_fun:
  assumes "list_all (in_bounds a) idx"
  shows "get3 (scatter a (map (\<lambda>p. (p, f p)) idx)) q = (if q \<in> set idx then f q else get3 a q)"
  using assms
proof (induction idx rule: rev_induct)
  case Nil
  show ?case by (simp add: scatter_Nil)
next
  case (snoc p idx)
  let ?b = "scatter a (map (\<lambda>p. (p, f p)) idx)"
  from snoc.prems have pa: "in_bounds a p" and rest: "list_all (in_bounds a) idx" by simp_all
  have pb: "in_bounds ?b p"
    using pa by (simp only: in_bounds_scatter)
  have "get3 (scatter a (map (\<lambda>p. (p, f p)) (idx @ [p]))) q = get3 (upd3 ?b p (f p)) q"
    by (simp add: scatter_snoc)
  also have "\<dots> = (if q = p then f p else get3 ?b q)"
    by (rule get3_upd3[OF pb])
  finally show ?case using snoc.IH[OF rest] by auto
qed

lemma set_nonzero: "p \<in> set (nonzero a) \<longleftrightarrow> in_bounds a p \<and> get3 a p \<noteq> 0"
  by (cases p) (auto simp: nonzero_def)

lemma shape3_zeros3: "shape3 (zeros3 E R K) = replicate E (replicate R K)"
  by (simp add: shape3_def zeros3_def)

lemma get3_zeros3: "in_bounds (zeros3 E R K) p \<Longrightarrow> get3 (zeros3 E R K) p = 0"
  by (cases p) (auto simp: zeros3_def)

lemma zip_map2_same:
  "zip idx (map2 (+) (map g idx) (map h idx)) = map (\<lambda>p. (p, g p + h p)) idx"
  by (induction idx) auto

subsection \<open>The event loss table\<close>

lemma agglosses_fromiter_concat:
  "agglosses_fromiter eids agglosses =
     concat (map (\<lambda>(e, losses). row_records e losses) (zip eids agglosses))"
  unfolding agglosses_fromiter_def row_records_def
  by (rule arg_cong[where f = concat]) (rule map_cong, auto)



lemma set_row_records:
  "rec \<in> set (row_records e losses) \<longleftrightarrow>
     (\<exists>r<length losses. sum_list (losses ! r) \<noteq> 0 \<and>
        rec = \<lparr>eid = e, rlzi = of_nat r, loss = losses ! r\<rparr>)"
proof
  assume "rec \<in> set (row_records e losses)"
  then obtain r l where "(r, l) \<in> set (enumerate 0 losses)" "sum_list l \<noteq> 0"
    "rec = \<lparr>eid = e, rlzi = of_nat r, loss = l\<rparr>"
    unfolding row_records_def by auto
  then show "\<exists>r<length losses. sum_list (losses ! r) \<noteq> 0 \<and>
        rec = \<lparr>eid = e, rlzi = of_nat r, loss = losses ! r\<rparr>"
    by (auto simp: in_set_enumerate_eq)
next
  assume "\<exists>r<length losses. sum_list (losses ! r) \<noteq> 0 \<and>
        rec = \<lparr>eid = e, rlzi = of_nat r, loss = losses ! r\<rparr>"
  then obtain r where r: "r < length losses" "sum_list (losses ! r) \<noteq> 0"
    "rec = \<lparr>eid = e, rlzi = of_nat r, loss = losses ! r\<rparr>" by blast
  then have "(r, losses ! r) \<in> set (enumerate 0 losses)"
    by (simp add: in_set_enumerate_eq)
  with r show "rec \<in> set (row_records e losses)"
    unfolding row_records_def by force
qed

lemma set_agglosses_fromiter:
  "rec \<in> set (agglosses_fromiter eids agglosses) \<longleftrightarrow>
   (\<exists>i r. i < length eids \<and> i < length agglosses \<and> r < length (agglosses ! i) \<and>
          sum_list (agglosses ! i ! r) \<noteq> 0 \<and>
          rec = \<lparr>eid = eids ! i, rlzi = of_nat r, loss = agglosses ! i ! r\<rparr>)"
proof
  assume "rec \<in> set (agglosses_fromiter eids agglosses)"
  then obtain e losses where el: "(e, losses) \<in> set (zip eids agglosses)"
    and rr: "rec \<in> set (row_records e losses)"
    unfolding agglosses_fromiter_concat by auto
  from el obtain i where i: "i < length eids" "i < length agglosses" "e = eids ! i" "losses = agglosses ! i"
    by (auto simp: set_zip)
  from rr obtain r where "r < length losses" "sum_list (losses ! r) \<noteq> 0"
    "rec = \<lparr>eid = e, rlzi = of_nat r, loss = losses ! r\<rparr>"
    unfolding set_row_records by blast
  with i show "\<exists>i r. i < length eids \<and> i < length agglosses \<and> r < length (agglosses ! i) \<and>
          sum_list (agglosses ! i ! r) \<noteq> 0 \<and>
          rec = \<lparr>eid = eids ! i, rlzi = of_nat r, loss = agglosses ! i ! r\<rparr>" by blast
next
  assume "\<exists>i r. i < length eids \<and> i < length agglosses \<and> r < length (agglosses ! i) \<and>
          sum_list (agglosses ! i ! r) \<noteq> 0 \<and>
          rec = \<lparr>eid = eids ! i, rlzi = of_nat r, loss = agglosses ! i ! r\<rparr>"
  then obtain i r where ir: "i < length eids" "i < length agglosses" "r < length (agglosses ! i)"
     "sum_list (agglosses ! i ! r) \<noteq> 0"
     "rec = \<lparr>eid = eids ! i, rlzi = of_nat r, loss = agglosses ! i ! r\<rparr>" by blast
  then have "(eids ! i, agglosses ! i) \<in> set (zip eids agglosses)"
    by (auto simp: set_zip)
  moreover have "rec \<in> set (row_records (eids ! i) (agglosses ! i))"
    unfolding set_row_records using ir by blast
  ultimately show "rec \<in> set (agglosses_fromiter eids agglosses)"
    unfolding agglosses_fromiter_concat by force
qed




lemma sum_list_all_zero: "\<forall>x \<in> set xs. x = 0 \<Longrightarrow> sum_list xs = (0::real)"
  by (induction xs) auto


subsection \<open>The task ebr\<close>

lemma positive_cell_append:
  assumes "positive_cells c" "0 < x" "cell_append c p [(rid, x)] = Inr c'"
  shows "positive_cells c'"
proof -
  from assms(3) have pb: "in_bounds c p" and c': "c' = upd3 c p (get3 c p @ [[(rid, x)]])"
    by (auto simp: cell_append_def split: if_splits)
  have ib: "in_bounds c' q = in_bounds c q" for q
    unfolding c' by (rule in_bounds_shape3[OF shape3_upd3])
  show ?thesis
    unfolding positive_cells_def
  proof (intro allI impI)
    fix q assume "in_bounds c' q"
    then have qc: "in_bounds c q" by (simp add: ib)
    have g: "get3 c' q = (if q = p then get3 c p @ [[(rid, x)]] else get3 c q)"
      unfolding c' by (rule get3_upd3[OF pb])
    from assms(1) qc have old: "\<forall>arr \<in> set (get3 c q). \<forall>rl \<in> set arr. 0 < snd rl"
      unfolding positive_cells_def by blast
    show "\<forall>arr \<in> set (get3 c' q). \<forall>rl \<in> set arr. 0 < snd rl"
      unfolding g using old assms(2) by auto
  qed
qed

lemma positive_ebr_events:
  "positive_cells c \<Longrightarrow> ebr_events lt ordinal evs c = Inr c' \<Longrightarrow> positive_cells c'"
proof (induction lt ordinal evs c rule: ebr_events.induct)
  case (1 lt ordinal losses)
  then show ?case by simp
next
  case (2 lt ordinal rup_id loss' ins_loss rest losses)
  from "2.prems"(2) obtain l1 l2 where
    s1: "(if loss' > 0 then cell_append losses (0, lt, ordinal) [(of_nat rup_id, loss')] else Inr losses) = Inr l1"
    and s2: "(if ins_loss > 0 then cell_append l1 (1, lt, ordinal) [(of_nat rup_id, ins_loss)] else Inr l1) = Inr l2"
    and s3: "ebr_events lt ordinal rest l2 = Inr c'"
    by (auto simp: and_then_def split: sum.splits)
  have p1: "positive_cells l1"
    using s1 "2.prems"(1) positive_cell_append by (auto split: if_splits)
  have p2: "positive_cells l2"
    using s2 p1 positive_cell_append by (auto split: if_splits)
  show ?case
    using "2.IH"[OF p2 s3] .
qed

lemma positive_ebr_rlzs:
  "positive_cells c \<Longrightarrow> ebr_rlzs lts rup_ids ros c = Inr c' \<Longrightarrow> positive_cells c'"
proof (induction ros arbitrary: c)
  case Nil
  then show ?case by simp
next
  case (Cons ro ros)
  obtain ordinal out where ro: "ro = (ordinal, out)" by (cases ro)
  from Cons.prems(2) obtain lt c1 where
    "ebr_events lt ordinal (zip rup_ids (zip (map sum_list (event_loss_per_asset out))
        (map sum_list (insured_loss_per_asset out)))) c = Inr c1"
    and r: "ebr_rlzs lts rup_ids ros c1 = Inr c'"
    by (auto simp: ro and_then_def Let_def split: option.splits sum.splits)
  from positive_ebr_events[OF Cons.prems(1) this(1)] Cons.IH r show ?case by blast
qed

lemma positive_ebr_outputs:
  "positive_cells c \<Longrightarrow> ebr_outputs lts rlzs obs c = Inr c' \<Longrightarrow> positive_cells c'"
proof (induction obs arbitrary: c)
  case Nil
  then show ?case by simp
next
  case (Cons ob obs)
  from Cons.prems(2) obtain c1 where
    "ebr_rlzs lts [fst (rup_slice ob)..<snd (rup_slice ob)] (zip rlzs (outs ob)) c = Inr c1"
    and r: "ebr_outputs lts rlzs obs c1 = Inr c'"
    by (auto simp: and_then_def Let_def split: sum.splits)
  from positive_ebr_rlzs[OF Cons.prems(1) this(1)] Cons.IH r show ?case by blast
qed

lemma positive_cube_Nil: "positive_cells (cube O' L R [])"
  unfolding positive_cells_def
proof (intro allI impI)
  let ?c = "cube O' L R [] :: loss_cube"
  fix p :: idx3
  obtain e r k where p: "p = (e, r, k)" by (cases p)
  assume "in_bounds ?c p"
  then have "set (get3 ?c p) = {}"
    by (auto simp: p cube_def)
  then show "\<forall>arr \<in> set (get3 ?c p). \<forall>rl \<in> set arr. 0 < snd rl"
    by simp
qed

lemma positive_concatenate_cells:
  assumes "positive_cells c"
  shows "positive_cells (concatenate_cells c)"
  unfolding positive_cells_def
proof (intro allI impI)
  fix p :: idx3
  obtain e r k where p: "p = (e, r, k)" by (cases p)
  assume ib: "in_bounds (concatenate_cells c) p"
  then have ibc: "in_bounds c p"
    by (auto simp: p concatenate_cells_def)
  have g: "get3 (concatenate_cells c) p = (if get3 c p \<noteq> [] then [concat (get3 c p)] else get3 c p)"
    using ibc by (auto simp: p concatenate_cells_def)
  from assms ibc have old: "\<forall>arr \<in> set (get3 c p). \<forall>rl \<in> set arr. 0 < snd rl"
    unfolding positive_cells_def by blast
  show "\<forall>arr \<in> set (get3 (concatenate_cells c) p). \<forall>rl \<in> set arr. 0 < snd rl"
    unfolding g using old by auto
qed

lemma ebr_positive:
  assumes "ebr loss_types realizations outputs = Inr c"
  shows "positive_cells c"
proof -
  from assms obtain c0 where
    c0: "ebr_outputs loss_types realizations outputs
           (cube NUM_OUTPUTS (length (remdups loss_types)) (length realizations) []) = Inr c0"
    and c: "c = concatenate_cells c0"
    by (auto simp: ebr_def and_then_def split: sum.splits)
  from positive_ebr_outputs[OF positive_cube_Nil c0] show ?thesis
    unfolding c by (rule positive_concatenate_cells)
qed

subsection \<open>Two runs on concrete data\<close>

lemma agglosses_fromiter_example: "agglosses_fromiter [3, 5] [[[0, 1], [2, 0]], [[0, 0], [0, 0]]] =
   [\<lparr>eid = 3, rlzi = 0, loss = [0, 1]\<rparr>, \<lparr>eid = 3, rlzi = 1, loss = [2, 0]\<rparr>]"
  by (simp add: agglosses_fromiter_def enumerate_eq_zip upt_rec)

lemma ebr_example: "ebr [''structural''] [0, 1]
   [\<lparr>rup_slice = (4, 6), outs = [\<lparr>loss_type = ''structural'', event_loss_per_asset = [[1, 2], [0, 0]], insured_loss_per_asset = [[0,0],[0,0]]\<rparr>,
    \<lparr>loss_type = ''structural'', event_loss_per_asset = [[0, 0], [3, 0.5]], insured_loss_per_asset = [[0,0],[1,0]]\<rparr>]\<rparr>]
   = Inr [[[[[(4, 3)]], [[(5, 7 / 2)]]]], [[[], [[(5, 1)]]]]]"
  by (simp add: ebr_def ebr_outputs.simps and_then_def lt_idx_def cube_def NUM_OUTPUTS_def cell_append_def concatenate_cells_def upt_rec numeral_2_eq_2)

subsection \<open>The epsilons\<close>

lemma lookup_all_rows:
  "lookup_all d ks = Inr vs \<Longrightarrow> \<forall>v \<in> set vs. \<exists>k. map_of d k = Some v"
proof (induction ks arbitrary: vs)
  case Nil
  then show ?case by simp
next
  case (Cons k ks)
  then show ?case
    by (auto simp: and_then_def split: option.splits sum.splits)
qed

lemma pre_execute_epsilons_example:
  "pre_execute_epsilons (\<lambda>refs n. map (\<lambda>a. (a, replicate n 0)) refs) [''a1''] [''a1'']
     [1, 2, 3, 4, 5, 6, 7, 8, 9, 10 :: nat] 5 =
     Inr \<lparr>num_samples = 5, generated = 5, epsilon_matrix = [[0, 0, 0, 0, 0]]\<rparr>"
  by (simp add: pre_execute_epsilons_def and_then_def len_dict_def numeral_eq_Suc)

subsection \<open>The task \<^verbatim>\<open>event_based_risk\<close>\<close>


lemma foldE_skip:
  assumes "\<And>x s. x \<in> set xs \<Longrightarrow> \<not> P x \<Longrightarrow> f x s = Inr s"
  shows "foldE f xs s = foldE f (filter P xs) s"
  using assms
proof (induction xs arbitrary: s)
  case Nil
  show ?case by simp
next
  case (Cons x xs)
  have rest: "foldE f xs t = foldE f (filter P xs) t" for t
    by (rule Cons.IH) (simp add: Cons.prems)
  show ?case
  proof (cases "P x")
    case True
    then show ?thesis by (simp add: rest[abs_def])
  next
    case False
    then have "f x s = Inr s" by (simp add: Cons.prems)
    with False show ?thesis by (simp add: and_then_def rest)
  qed
qed

lemma event_based_risk_example:
  "event_based_risk
     \<lparr>ri_aids = [0, 1], ri_by_site = True, hg_eids = [3, 7], hg_eid2idx = [(3, 0), (7, 1)],
      hg_num_rlzs = 1\<rparr>
     1 [''structural'']
     [\<lparr>out_eids = [7], out_rlzi = 0,
       out_assets = [\<lparr>asset_ordinal = 1, asset_value = (\<lambda>lt. 10)\<rparr>],
       out_loss_ratios = [Some [[[1 / 2]]]]\<rparr>]
     \<lparr>insured_losses = 0, avg_losses = True, ses_ratio = 2, builder = None\<rparr> =
   Inr \<lparr>res_aids = [0, 1], res_avglosses = [((0, 0), Dict [(1, 1)])],
        res_agglosses = ([(1, 0, 0)], [5]), res_all_curves = []\<rparr>"
  by (simp add: event_based_risk_def out_step_def asset_step_def agglosses_i_def average_losses_def avg_losses_i_def
      column_def accum_def getitem_accum_def and_then_def iadd_at_def broadcast_def scatter_def
      zeros3_def nonzero_def enumerate_eq_zip)






lemma zero_ratios_not_skipped_example:
  "loss_type_step
     \<lparr>ri_aids = [0], ri_by_site = True, hg_eids = [3], hg_eid2idx = [(3, 0)], hg_num_rlzs = 1\<rparr>
     \<lparr>insured_losses = 0, avg_losses = True, ses_ratio = 2, builder = None\<rparr> 1 [''structural'']
     \<lparr>out_eids = [3], out_rlzi = 0,
      out_assets = [\<lparr>asset_ordinal = 0, asset_value = (\<lambda>lt. 10)\<rparr>], out_loss_ratios = [Some [[[0]]]]\<rparr>
     (0, Some [[[0]]]) \<lparr>st_agg = [[[0]]], st_avg = [], st_all_curves = []\<rparr> =
   Inr \<lparr>st_agg = [[[0]]], st_avg = [((0, 0), Dict [(0, 0)])], st_all_curves = []\<rparr>"
  by (simp add: asset_step_def agglosses_i_def average_losses_def avg_losses_i_def
      column_def accum_def getitem_accum_def and_then_def iadd_at_def broadcast_def scatter_def
      enumerate_eq_zip)

subsection \<open>Addition through an index list\<close>

lemma get3_scatter:
  assumes "list_all (in_bounds a) (map fst ps)"
  shows "get3 (scatter a ps) q = (case map_of (rev ps) q of None \<Rightarrow> get3 a q | Some x \<Rightarrow> x)"
  using assms
proof (induction ps rule: rev_induct)
  case Nil
  show ?case by (simp add: scatter_Nil)
next
  case (snoc px ps)
  obtain p x where px: "px = (p, x)" by (cases px)
  from snoc.prems have pa: "in_bounds a p" and rest: "list_all (in_bounds a) (map fst ps)"
    by (simp_all add: px)
  have pb: "in_bounds (scatter a ps) p"
    using pa by (simp only: in_bounds_scatter)
  have "get3 (scatter a (ps @ [px])) q = get3 (upd3 (scatter a ps) p x) q"
    by (simp add: px scatter_snoc)
  also have "\<dots> = (if q = p then x else get3 (scatter a ps) q)"
    by (rule get3_upd3[OF pb])
  finally show ?case using snoc.IH[OF rest] by (simp add: px)
qed

lemma map_of_map_key:
  "map_of (map (\<lambda>(k, v). (k, f k v)) xs) k = map_option (f k) (map_of xs k)"
  by (induction xs) auto

lemma map_of_rev_map_key:
  "map_of (rev (map (\<lambda>(k, v). (k, f k v)) xs)) k = map_option (f k) (map_of (rev xs) k)"
  by (simp only: rev_map map_of_map_key)

lemma zip_map2_gather:
  "zip idx (map2 (+) (map g idx) w) = map (\<lambda>(p, x). (p, g p + x)) (zip idx w)"
proof (induction idx arbitrary: w)
  case Nil
  show ?case by simp
next
  case (Cons p idx)
  show ?case by (cases w) (simp_all add: Cons.IH)
qed

lemma iadd_at_Inr:
  "iadd_at a idx v = Inr b \<longleftrightarrow>
     list_all (in_bounds a) idx \<and>
     (\<exists>w. broadcast (length idx) v = Inr w \<and>
          b = scatter a (zip idx (map2 (+) (map (get3 a) idx) w)))"
  by (auto simp: iadd_at_def split: sum.splits)

lemma length_broadcast: "broadcast n v = Inr w \<Longrightarrow> length w = n"
  by (auto simp: broadcast_def split: if_splits)

lemma shape3_iadd_at: "iadd_at a idx v = Inr b \<Longrightarrow> shape3 b = shape3 a"
  by (auto simp: iadd_at_Inr shape3_scatter)

lemma get3_iadd_at:
  assumes "iadd_at a idx v = Inr b" and "broadcast (length idx) v = Inr w"
  shows "get3 b q = get3 a q + delta idx w q"
proof -
  from assms have ib: "list_all (in_bounds a) idx"
    and b: "b = scatter a (map (\<lambda>(p, x). (p, get3 a p + x)) (zip idx w))"
    by (auto simp: iadd_at_Inr zip_map2_gather)
  have len: "length w = length idx" using assms(2) by (rule length_broadcast)
  have fst: "map fst (map (\<lambda>(p, x). (p, get3 a p + x)) (zip idx w)) = idx"
    using len by (simp add: case_prod_unfold comp_def)
  have "get3 b q =
      (case map_of (rev (map (\<lambda>(p, x). (p, get3 a p + x)) (zip idx w))) q of
         None \<Rightarrow> get3 a q | Some x \<Rightarrow> x)"
    unfolding b by (rule get3_scatter) (simp only: fst ib)
  also have "\<dots> = get3 a q + delta idx w q"
    unfolding map_of_rev_map_key delta_def by (simp split: option.splits)
  finally show ?thesis .
qed



lemma delta_notin:
  assumes "length w = length idx" and "q \<notin> set idx"
  shows "delta idx w q = 0"
proof -
  have "q \<notin> fst ` set (rev (zip idx w))"
    using assms(2) by (auto dest: set_zip_leftD)
  then have "map_of (rev (zip idx w)) q = None"
    by (simp only: map_of_eq_None_iff not_False_eq_True)
  then show ?thesis by (simp add: delta_def)
qed

lemma delta_gather:
  "delta idx (map f idx) q = (if q \<in> set idx then f q else 0)"
proof -
  have "map_of (rev (zip idx (map f idx))) q = (if q \<in> set idx then Some (f q) else None)"
    by (induction idx rule: rev_induct) auto
  then show ?thesis by (simp add: delta_def)
qed

subsection \<open>The calculator\<close>



lemma save_losses_agglosses:
  assumes "save_losses self dic = Inr self'"
  shows "iadd_at (self_agglosses self) (fst (res_agglosses dic)) (snd (res_agglosses dic))
           = Inr (self_agglosses self')"
    and "self_eids self' = self_eids self" and "self_eps self' = self_eps self"
    and "self_E self' = self_E self" and "self_R self' = self_R self"
    and "self_L self' = self_L self" and "self_loss_types self' = self_loss_types self"
    and "self_vals self' = self_vals self" and "self_taskno self' = self_taskno self + 1"
    and "foldE (save_avglosses (self_L self) (self_loss_types self) (self_vals self) (res_aids dic))
           (res_avglosses dic) (self_dset self) = Inr (self_dset self')"
  using assms by (auto simp: save_losses_def and_then_def split: sum.splits)






subsection \<open>A run of the calculator on concrete data\<close>




subsection \<open>Saving the average losses\<close>

lemma get_times_values_Inr:
  "get_times_values ratios vs aids' = Inr x \<Longrightarrow>
     x = map (\<lambda>aid. lba_get ratios aid * vs ! aid) aids'"
proof (induction ratios vs aids' arbitrary: x rule: get_times_values.induct)
  case (1 ratios vs)
  then show ?case by simp
next
  case (2 a vs aid aids')
  then show ?case by simp
next
  case (3 d vs aid aids')
  from "3.prems" obtain xs where lt: "aid < length vs"
    and xs: "get_times_values (Dict d) vs aids' = Inr xs"
    and x: "x = (case map_of d aid of Some y \<Rightarrow> y | None \<Rightarrow> 0) * vs ! aid # xs"
    by (auto simp: and_then_def split: if_splits sum.splits)
  from "3.IH"[OF lt xs] show ?case by (simp add: x)
qed

text \<open>What saving one item of the average losses adds to the cell \<open>(aid, r, li)\<close>.\<close>

lemma save_avglosses_get3:
  assumes "save_avglosses L lts vals aids' ((li, r), ratios) (Some d) = Inr res"
  shows "\<exists>d'. res = Some d' \<and> shape3 d' = shape3 d \<and>
     (\<forall>aid r' li'. get3 d' (aid, r', li') =
        get3 d (aid, r', li') +
        (if aid \<in> set aids' \<and> r' = r \<and> li' = li
         then lba_get ratios aid * vals (lts ! (if li < L then li else li - L)) ! aid else 0))"
proof -
  let ?l = "if li < L then li else li - L"
  let ?vs = "vals (lts ! ?l)"
  let ?idx = "map (\<lambda>aid. (aid, r, li)) aids'"
  let ?g = "\<lambda>q. lba_get ratios (fst q) * ?vs ! fst q"
  from assms obtain x d' where
    x: "get_times_values ratios ?vs aids' = Inr x"
    and ia: "iadd_at d ?idx x = Inr d'" and res: "res = Some d'"
    by (auto simp: save_avglosses_def Let_def and_then_def split: if_splits sum.splits)
  have xg: "x = map ?g ?idx"
    using get_times_values_Inr[OF x] by (simp add: comp_def)
  have bc: "broadcast (length ?idx) x = Inr x"
    by (simp add: xg broadcast_def)
  have "get3 d' (aid, r', li') =
        get3 d (aid, r', li') +
        (if aid \<in> set aids' \<and> r' = r \<and> li' = li then lba_get ratios aid * ?vs ! aid else 0)"
    for aid r' li'
  proof -
    have "get3 d' (aid, r', li') = get3 d (aid, r', li') + delta ?idx (map ?g ?idx) (aid, r', li')"
      using get3_iadd_at[OF ia bc] by (simp only: xg)
    also have "delta ?idx (map ?g ?idx) (aid, r', li') =
        (if (aid, r', li') \<in> set ?idx then ?g (aid, r', li') else 0)"
      by (rule delta_gather)
    also have "(aid, r', li') \<in> set ?idx \<longleftrightarrow> aid \<in> set aids' \<and> r' = r \<and> li' = li"
      by auto
    finally show ?thesis by simp
  qed
  with res shape3_iadd_at[OF ia] show ?thesis by blast
qed

lemma foldE_save_avglosses:
  assumes "foldE (save_avglosses L lts vals aids') items (Some d) = Inr res"
  shows "\<exists>d'. res = Some d' \<and> shape3 d' = shape3 d \<and>
     (\<forall>aid r li. get3 d' (aid, r, li) =
        get3 d (aid, r, li) +
        (\<Sum>item\<leftarrow>items.
           if aid \<in> set aids' \<and> fst item = (li, r)
           then lba_get (snd item) aid * vals (lts ! (if li < L then li else li - L)) ! aid
           else 0))"
  using assms
proof (induction items arbitrary: d)
  case Nil
  then show ?case by auto
next
  case (Cons item items)
  obtain li r ratios where item: "item = ((li, r), ratios)"
    by (cases item) auto
  from Cons.prems obtain res1 where
    1: "save_avglosses L lts vals aids' ((li, r), ratios) (Some d) = Inr res1"
    and 2: "foldE (save_avglosses L lts vals aids') items res1 = Inr res"
    by (auto simp: item and_then_def split: sum.splits)
  from save_avglosses_get3[OF 1] obtain d1 where d1: "res1 = Some d1"
    and sh1: "shape3 d1 = shape3 d"
    and g1: "\<And>aid r' li'. get3 d1 (aid, r', li') =
        get3 d (aid, r', li') +
        (if aid \<in> set aids' \<and> r' = r \<and> li' = li
         then lba_get ratios aid * vals (lts ! (if li < L then li else li - L)) ! aid else 0)"
    by blast
  from Cons.IH[OF 2[unfolded d1]] obtain d' where d': "res = Some d'"
    and sh: "shape3 d' = shape3 d1"
    and g: "\<And>aid r li. get3 d' (aid, r, li) =
        get3 d1 (aid, r, li) +
        (\<Sum>item\<leftarrow>items.
           if aid \<in> set aids' \<and> fst item = (li, r)
           then lba_get (snd item) aid * vals (lts ! (if li < L then li else li - L)) ! aid
           else 0)"
    by blast
  show ?case
    using d' sh sh1 by (auto simp: g g1 item simp del: get3.simps)
qed

lemma save_losses_example:
  "save_losses
     \<lparr>self_eids = [3, 7], self_E = 2, self_eps = [[0, 0 :: real], [0, 0], [0, 0]], self_A = 3,
      self_R = 1, self_L = 1, self_I = 1, self_loss_types = [''structural''],
      self_vals = (\<lambda>lt. [10, 20, 30]),
      self_agglosses = [[[0]], [[0]]], self_dset = Some [[[1]], [[2]], [[4]]], self_taskno = 0\<rparr>
     \<lparr>res_aids = [0, 1], res_avglosses = [((0, 0), Dict [(1, 1 / 2)])],
      res_agglosses = ([(1, 0, 0)], [5]), res_all_curves = []\<rparr> =
   Inr \<lparr>self_eids = [3, 7], self_E = 2, self_eps = [[0, 0], [0, 0], [0, 0]], self_A = 3,
        self_R = 1, self_L = 1, self_I = 1, self_loss_types = [''structural''],
        self_vals = (\<lambda>lt. [10, 20, 30]),
        self_agglosses = [[[0]], [[5]]], self_dset = Some [[[1]], [[12]], [[4]]],
        self_taskno = 1\<rparr>"
  by (simp add: save_losses_def save_avglosses_def and_then_def iadd_at_def broadcast_def
      scatter_def)

subsection \<open>Order of the reduction\<close>


















section \<open>The claims\<close>

text \<open>
  C3 (sparsity round trip). The task returns its dense aggregate array \<open>a\<close> as the pair
  \<^verbatim>\<open>(idx, agg[idx])\<close> with \<^verbatim>\<open>idx = agg.nonzero()\<close>. Adding these values at these positions
  into a zero array of the same shape, as \<^verbatim>\<open>self.agglosses[idx] += agg\<close> does, succeeds
  and gives back exactly \<open>a\<close>.
\<close>

theorem sparsity_round_trip:
  assumes "shape3 a = shape3 (zeros3 E R K)"
  shows "iadd_at (zeros3 E R K) (nonzero a) (map (get3 a) (nonzero a)) = Inr a"
proof -
  let ?z = "zeros3 E R K"
  let ?idx = "nonzero a"
  have ib: "in_bounds ?z p = in_bounds a p" for p
    using in_bounds_shape3[OF assms] by simp
  have all: "list_all (in_bounds ?z) ?idx"
    by (simp add: list_all_iff ib set_nonzero)
  have bc: "broadcast (length ?idx) (map (get3 a) ?idx) = Inr (map (get3 a) ?idx)"
    by (simp add: broadcast_def)
  let ?f = "\<lambda>p. get3 ?z p + get3 a p"
  have res: "iadd_at ?z ?idx (map (get3 a) ?idx) = Inr (scatter ?z (map (\<lambda>p. (p, ?f p)) ?idx))"
    unfolding iadd_at_def using all bc by (simp add: zip_map2_same)
  have "scatter ?z (map (\<lambda>p. (p, ?f p)) ?idx) = a"
  proof (rule arr3_eqI)
    show "shape3 (scatter ?z (map (\<lambda>p. (p, ?f p)) ?idx)) = shape3 a"
      by (simp add: shape3_scatter assms)
  next
    fix p assume "in_bounds (scatter ?z (map (\<lambda>p. (p, ?f p)) ?idx)) p"
    then have pz: "in_bounds ?z p"
      by (simp only: in_bounds_scatter)
    then have pa: "in_bounds a p" by (simp add: ib)
    show "get3 (scatter ?z (map (\<lambda>p. (p, ?f p)) ?idx)) p = get3 a p"
      using get3_scatter_fun[OF all, of ?f p] pz pa
      by (auto simp: set_nonzero get3_zeros3)
  qed
  with res show ?thesis by simp
qed

theorem sparsity_round_trip_witness:
  "shape3 [[[0, 1], [2, 0]], [[0, 0], [0, 3::real]]] = shape3 (zeros3 2 2 2) \<and>
   iadd_at (zeros3 2 2 2) (nonzero [[[0, 1], [2, 0]], [[0, 0], [0, 3]]])
     (map (get3 [[[0, 1], [2, 0]], [[0, 0], [0, 3]]]) (nonzero [[[0, 1], [2, 0]], [[0, 0], [0, 3]]]))
   = Inr [[[0, 1], [2, 0]], [[0, 0], [0, 3]]]"
proof -
  have sh: "shape3 [[[0, 1], [2, 0]], [[0, 0], [0, 3::real]]] = shape3 (zeros3 2 2 2)"
    by (simp add: shape3_def zeros3_def numeral_2_eq_2)
  show ?thesis using sh sparsity_round_trip[OF sh] by simp
qed

text \<open>
  C2 (zero filtering). A record for event \<open>eids ! i\<close> and realization \<open>r\<close> is in the table
  that \<^verbatim>\<open>post_execute\<close> persists exactly when the loss vector \<open>agglosses ! i ! r\<close> has a
  nonzero sum. In particular, with distinct event ids, an event whose losses are all zero
  has no record. In the task \<^verbatim>\<open>ebr\<close> every record that was appended to a cell carries a
  strictly positive loss.
\<close>

theorem elt_nonzero_sum_filter:
  "(rec \<in> set (agglosses_fromiter eids agglosses) \<longleftrightarrow>
      (\<exists>i r. i < length eids \<and> i < length agglosses \<and> r < length (agglosses ! i) \<and>
             sum_list (agglosses ! i ! r) \<noteq> 0 \<and>
             rec = \<lparr>eid = eids ! i, rlzi = of_nat r, loss = agglosses ! i ! r\<rparr>)) \<and>
   (distinct eids \<and> j < length eids \<and> j < length agglosses \<and>
      (\<forall>l \<in> set (agglosses ! j). \<forall>x \<in> set l. x = 0) \<longrightarrow>
      eids ! j \<notin> eid ` set (agglosses_fromiter eids agglosses)) \<and>
   (ebr loss_types realizations outputs = Inr c \<and> in_bounds c p \<and>
      arr \<in> set (get3 c p) \<and> rl \<in> set arr \<longrightarrow> 0 < snd rl)"
proof (intro conjI impI)
  show "rec \<in> set (agglosses_fromiter eids agglosses) \<longleftrightarrow>
      (\<exists>i r. i < length eids \<and> i < length agglosses \<and> r < length (agglosses ! i) \<and>
             sum_list (agglosses ! i ! r) \<noteq> 0 \<and>
             rec = \<lparr>eid = eids ! i, rlzi = of_nat r, loss = agglosses ! i ! r\<rparr>)"
    by (rule set_agglosses_fromiter)
next
  assume h: "distinct eids \<and> j < length eids \<and> j < length agglosses \<and>
      (\<forall>l \<in> set (agglosses ! j). \<forall>x \<in> set l. x = 0)"
  show "eids ! j \<notin> eid ` set (agglosses_fromiter eids agglosses)"
  proof
    assume "eids ! j \<in> eid ` set (agglosses_fromiter eids agglosses)"
    then obtain rec' where r: "rec' \<in> set (agglosses_fromiter eids agglosses)" "eid rec' = eids ! j"
      by auto
    from r(1) obtain i r where ir: "i < length eids" "i < length agglosses" "r < length (agglosses ! i)"
      "sum_list (agglosses ! i ! r) \<noteq> 0" "rec' = \<lparr>eid = eids ! i, rlzi = of_nat r, loss = agglosses ! i ! r\<rparr>"
      unfolding set_agglosses_fromiter by blast
    from ir(5) r(2) have "eids ! i = eids ! j" by simp
    with h ir(1) have "i = j" by (simp add: nth_eq_iff_index_eq)
    with ir(3) have "agglosses ! j ! r \<in> set (agglosses ! j)" by simp
    with h have "\<forall>x \<in> set (agglosses ! j ! r). x = 0" by blast
    then have "sum_list (agglosses ! j ! r) = 0" by (rule sum_list_all_zero)
    with ir(4) \<open>i = j\<close> show False by simp
  qed
next
  assume h: "ebr loss_types realizations outputs = Inr c \<and> in_bounds c p \<and>
      arr \<in> set (get3 c p) \<and> rl \<in> set arr"
  then have "positive_cells c" by (blast intro: ebr_positive)
  with h show "0 < snd rl" unfolding positive_cells_def by blast
qed

theorem elt_nonzero_sum_filter_witness:
  "\<lparr>eid = 3, rlzi = 1, loss = [2, 0]\<rparr>
     \<in> set (agglosses_fromiter [3, 5] [[[0, 1], [2, 0]], [[0, 0], [0, 0]]]) \<and>
   distinct [3, 5 :: 64 word] \<and>
   list_all (list_all (\<lambda>x. x = 0)) ([[[0, 1], [2, 0]], [[0, 0], [0, 0 :: real]]] ! 1) \<and>
   5 \<notin> eid ` set (agglosses_fromiter [3, 5] [[[0, 1], [2, 0]], [[0, 0], [0, 0]]]) \<and>
   ebr [''structural''] [0, 1]
     [\<lparr>rup_slice = (4, 6),
       outs = [\<lparr>loss_type = ''structural'', event_loss_per_asset = [[1, 2], [0, 0]],
                insured_loss_per_asset = [[0, 0], [0, 0]]\<rparr>,
              \<lparr>loss_type = ''structural'', event_loss_per_asset = [[0, 0], [3, 0.5]],
                insured_loss_per_asset = [[0, 0], [1, 0]]\<rparr>]\<rparr>]
     = Inr [[[[[(4, 3)]], [[(5, 7 / 2)]]]], [[[], [[(5, 1)]]]]] \<and>
   0 < snd (5 :: 32 word, 7 / 2 :: real)"
  using elt_nonzero_sum_filter[where rec = "\<lparr>eid = 3, rlzi = 1, loss = [2, 0]\<rparr>"
      and eids = "[3, 5]" and agglosses = "[[[0, 1], [2, 0]], [[0, 0], [0, 0]]]" and j = 1
      and loss_types = "[''structural'']" and realizations = "[0, 1]"
      and outputs = "[\<lparr>rup_slice = (4, 6),
       outs = [\<lparr>loss_type = ''structural'', event_loss_per_asset = [[1, 2], [0, 0]],
                insured_loss_per_asset = [[0, 0], [0, 0]]\<rparr>,
              \<lparr>loss_type = ''structural'', event_loss_per_asset = [[0, 0], [3, 0.5]],
                insured_loss_per_asset = [[0, 0], [1, 0]]\<rparr>]\<rparr>]"
      and c = "[[[[[(4, 3)]], [[(5, 7 / 2)]]]], [[[], [[(5, 1)]]]]]"
      and p = "(0, 0, 1)" and arr = "[(5, 7 / 2)]" and rl = "(5, 7 / 2)"]
    agglosses_fromiter_example ebr_example
  by simp

text \<open>
  C7 (size of the compressed sampling). \<^verbatim>\<open>pre_execute\<close> asks for
  \<open>min E epsilon_sampling\<close> samples per asset, where \<open>E\<close> is the number of ruptures: the cap
  itself when there are more ruptures than the cap. It logs that number times the number of
  assets as the number of epsilons generated. When \<^verbatim>\<open>make_eps_dict\<close> returns for every
  asset as many samples as it was asked for, every row of the stored matrix has that
  length. The number of assets plays no part in it.
\<close>

theorem epsilon_samples_per_asset:
  assumes "pre_execute_epsilons make_eps_dict assets_by_site assetcol all_ruptures epsilon_sampling
             = Inr st"
    and "\<forall>k v. map_of (make_eps_dict assets_by_site (min (length all_ruptures) epsilon_sampling)) k
             = Some v \<longrightarrow> length v = min (length all_ruptures) epsilon_sampling"
  shows "num_samples st = min (length all_ruptures) epsilon_sampling \<and>
    (epsilon_sampling < length all_ruptures \<longrightarrow> num_samples st = epsilon_sampling) \<and>
    generated st = num_samples st *
       len_dict (make_eps_dict assets_by_site (min (length all_ruptures) epsilon_sampling)) \<and>
    (\<forall>row \<in> set (epsilon_matrix st). length row = num_samples st)"
proof -
  let ?n = "min (length all_ruptures) epsilon_sampling"
  from assms(1) obtain m where m: "lookup_all (make_eps_dict assets_by_site ?n) assetcol = Inr m"
    and st: "st = \<lparr>num_samples = ?n, generated = ?n * len_dict (make_eps_dict assets_by_site ?n),
                   epsilon_matrix = m\<rparr>"
    by (auto simp: pre_execute_epsilons_def Let_def and_then_def split: sum.splits)
  have rows: "\<forall>row \<in> set m. length row = ?n"
    using lookup_all_rows[OF m] assms(2) by blast
  show ?thesis
    unfolding st using rows by simp
qed

theorem epsilon_samples_per_asset_witness:
  "pre_execute_epsilons (\<lambda>refs n. map (\<lambda>a. (a, replicate n 0)) refs) [''a1''] [''a1'']
     [1, 2, 3, 4, 5, 6, 7, 8, 9, 10 :: nat] 5 =
     Inr \<lparr>num_samples = 5, generated = 5, epsilon_matrix = [[0, 0, 0, 0, 0]]\<rparr> \<and>
   num_samples \<lparr>num_samples = 5, generated = 5, epsilon_matrix = [[0, 0, 0, 0, 0]]\<rparr> = 5 \<and>
   list_all (\<lambda>row. length row = 5) [[0, 0, 0, 0, 0 :: real]]"
proof -
  have c: "\<forall>k v. map_of ((\<lambda>refs n. map (\<lambda>a. (a, replicate n (0::real))) refs) [''a1'']
             (min (length [1, 2, 3, 4, 5, 6, 7, 8, 9, 10 :: nat]) 5)) k
             = Some v \<longrightarrow> length v = min (length [1, 2, 3, 4, 5, 6, 7, 8, 9, 10 :: nat]) 5"
    by simp
  show ?thesis
    using epsilon_samples_per_asset[OF pre_execute_epsilons_example c] pre_execute_epsilons_example
    by simp
qed

text \<open>
  One asset, ten ruptures and a cap of five: five samples are asked for and stored for the
  asset, more than \<open>min A epsilon_sampling = 1\<close>.
\<close>

theorem epsilon_samples_counterexample:
  "pre_execute_epsilons (\<lambda>refs n. map (\<lambda>a. (a, replicate n 0)) refs) [''a1''] [''a1'']
     [1, 2, 3, 4, 5, 6, 7, 8, 9, 10 :: nat] 5 =
     Inr \<lparr>num_samples = 5, generated = 5, epsilon_matrix = [[0, 0, 0, 0, 0]]\<rparr> \<and>
   \<not> num_samples \<lparr>num_samples = 5, generated = 5, epsilon_matrix = [[0, 0, 0, 0, 0]]\<rparr>
       \<le> min (length [''a1'']) 5 \<and>
   \<not> length [0, 0, 0, 0, 0 :: real] \<le> min (length [''a1'']) 5"
  using pre_execute_epsilons_example by simp

text \<open>
  C5 (absent loss ratios). In the loop \<^verbatim>\<open>for l, loss_ratios in enumerate(out)\<close> an entry
  that is \<^verbatim>\<open>None\<close> leaves the aggregate array, the average losses and the curve buffer as
  they are. So an output is processed as if it held its present entries only, each under
  its own index \<open>l\<close>, and an output whose entries are all \<^verbatim>\<open>None\<close> changes nothing. An array
  of zero ratios is not skipped: it creates entries of value zero in the average losses.
\<close>

theorem absent_ratios_skipped:
  "loss_type_step ri p L lts out (l, None) st = Inr st \<and>
   out_step ri p L lts out st =
     (if out_eids out = [] then Inr st
      else foldE (loss_type_step ri p L lts out)
             (filter (\<lambda>lr. snd lr \<noteq> None) (enumerate 0 (out_loss_ratios out))) st) \<and>
   ((\<forall>x \<in> set (out_loss_ratios out). x = None) \<longrightarrow> out_step ri p L lts out st = Inr st)"
proof (intro conjI impI)
  show "loss_type_step ri p L lts out (l, None) st = Inr st" by simp
next
  have skip: "foldE (loss_type_step ri p L lts out) xs s =
        foldE (loss_type_step ri p L lts out) (filter (\<lambda>lr. snd lr \<noteq> None) xs) s" for xs s
    by (rule foldE_skip) auto
  show "out_step ri p L lts out st =
     (if out_eids out = [] then Inr st
      else foldE (loss_type_step ri p L lts out)
             (filter (\<lambda>lr. snd lr \<noteq> None) (enumerate 0 (out_loss_ratios out))) st)"
    unfolding out_step_def using skip by simp
next
  assume none: "\<forall>x \<in> set (out_loss_ratios out). x = None"
  have skip: "foldE (loss_type_step ri p L lts out) xs s =
        foldE (loss_type_step ri p L lts out) (filter (\<lambda>lr. snd lr \<noteq> None) xs) s" for xs s
    by (rule foldE_skip) auto
  have "filter (\<lambda>lr. snd lr \<noteq> None) (enumerate 0 (out_loss_ratios out)) = []"
    using none by (auto simp: filter_empty_conv in_set_enumerate_eq)
  then have "foldE (loss_type_step ri p L lts out) (enumerate 0 (out_loss_ratios out)) st = Inr st"
    using skip[of "enumerate 0 (out_loss_ratios out)" st] by simp
  then show "out_step ri p L lts out st = Inr st"
    by (simp add: out_step_def)
qed

theorem absent_ratios_skipped_witness:
  "list_all (\<lambda>x. x = None)
     (out_loss_ratios \<lparr>out_eids = [3], out_rlzi = 0,
        out_assets = [\<lparr>asset_ordinal = 0, asset_value = (\<lambda>lt. 10)\<rparr>],
        out_loss_ratios = [None, None]\<rparr>) \<and>
   out_step
     \<lparr>ri_aids = [0], ri_by_site = True, hg_eids = [3], hg_eid2idx = [(3, 0)], hg_num_rlzs = 1\<rparr>
     \<lparr>insured_losses = 0, avg_losses = True, ses_ratio = 2, builder = None\<rparr> 2
     [''structural'', ''contents'']
     \<lparr>out_eids = [3], out_rlzi = 0,
      out_assets = [\<lparr>asset_ordinal = 0, asset_value = (\<lambda>lt. 10)\<rparr>],
      out_loss_ratios = [None, None]\<rparr>
     \<lparr>st_agg = [[[1, 2]]], st_avg = [((0, 0), Dict [(0, 4)])], st_all_curves = []\<rparr> =
   Inr \<lparr>st_agg = [[[1, 2]]], st_avg = [((0, 0), Dict [(0, 4)])], st_all_curves = []\<rparr>"
  using absent_ratios_skipped[of
      "\<lparr>ri_aids = [0], ri_by_site = True, hg_eids = [3], hg_eid2idx = [(3, 0)], hg_num_rlzs = 1\<rparr>"
      "\<lparr>insured_losses = 0, avg_losses = True, ses_ratio = 2, builder = None\<rparr>" 2
      "[''structural'', ''contents'']"
      "\<lparr>out_eids = [3], out_rlzi = 0,
        out_assets = [\<lparr>asset_ordinal = 0, asset_value = (\<lambda>lt. 10)\<rparr>],
        out_loss_ratios = [None, None]\<rparr>" 0
      "\<lparr>st_agg = [[[1, 2]]], st_avg = [((0, 0), Dict [(0, 4)])], st_all_curves = []\<rparr>"]
  by simp





text \<open>
  C8 (parameters of the parent calculation). Let a parent calculation be given
  (\<^verbatim>\<open>oq.hazard_calculation_id\<close>) whose \<^verbatim>\<open>investigation_time\<close> or \<^verbatim>\<open>minimum_intensity\<close>
  differs from that of the current run. Then \<^verbatim>\<open>pre_execute\<close> raises, and no calculator
  state is produced. Without a file of ground motion fields, and once
  \<^verbatim>\<open>super().pre_execute()\<close> has returned, the exception is the \<^verbatim>\<open>ValueError\<close> that names the
  parameter, the investigation time being checked first; this \<^verbatim>\<open>ValueError\<close> is the fatal
  configuration error of the engine. With a file of ground motion fields the combination
  with a parent calculation is itself refused, by an assertion.
\<close>

theorem parent_mismatch_raises:
  assumes "truthy (hazard_calculation_id oq)"
    and "investigation_time (parent_oqparam env) \<noteq> investigation_time oq \<or>
         minimum_intensity (parent_oqparam env) \<noteq> minimum_intensity oq"
  shows "pre_execute oq env A R L lts vals make_epsilon_getter =
     (if gmfs_in_inputs oq
      then Inl (AssertionError ''You cannot use --hc together with gmfs_file'')
      else case super_pre_execute env of
             Inl e \<Rightarrow> Inl e
           | Inr u \<Rightarrow>
               Inl (ValueError
                 (if investigation_time (parent_oqparam env) \<noteq> investigation_time oq
                  then ''The parent calculation was using investigation_time''
                  else ''The parent calculation was using minimum_intensity'')))
     \<and> (\<exists>e. pre_execute oq env A R L lts vals make_epsilon_getter = Inl e)"
proof -
  have 1: "pre_execute oq env A R L lts vals make_epsilon_getter =
     (if gmfs_in_inputs oq
      then Inl (AssertionError ''You cannot use --hc together with gmfs_file'')
      else case super_pre_execute env of
             Inl e \<Rightarrow> Inl e
           | Inr u \<Rightarrow>
               Inl (ValueError
                 (if investigation_time (parent_oqparam env) \<noteq> investigation_time oq
                  then ''The parent calculation was using investigation_time''
                  else ''The parent calculation was using minimum_intensity'')))"
    using assms
    by (cases "super_pre_execute env")
       (auto simp: pre_execute_def pre_execute_parent_def and_then_def)
  have 2: "\<exists>e. pre_execute oq env A R L lts vals make_epsilon_getter = Inl e"
    unfolding 1 by (cases "super_pre_execute env") auto
  from 1 2 show ?thesis by (rule conjI)
qed

theorem parent_mismatch_raises_witness:
  "truthy (Some 1) \<and> (100 :: real) \<noteq> 50 \<and>
   pre_execute
     \<lparr>gmfs_in_inputs = False, hazard_calculation_id = Some 1, investigation_time = 50,
      minimum_intensity = (0::nat), ses_per_logic_tree_path = 1, oq_insured_losses = 0,
      oq_avg_losses = False\<rparr>
     \<lparr>super_pre_execute = Inr (),
      parent_oqparam = \<lparr>gmfs_in_inputs = False, hazard_calculation_id = None,
        investigation_time = 100, minimum_intensity = 0, ses_per_logic_tree_path = 1,
        oq_insured_losses = 0, oq_avg_losses = False\<rparr>,
      parent_events_eid = [7, 3], datastore_events_eid = [], ebcalc_run = Inl KeyError\<rparr>
     1 1 1 [''structural''] (\<lambda>lt. [10]) (\<lambda>A E. replicate A (replicate E (0::real))) =
   Inl (ValueError ''The parent calculation was using investigation_time'') \<and>
   pre_execute
     \<lparr>gmfs_in_inputs = False, hazard_calculation_id = Some 1, investigation_time = 50,
      minimum_intensity = (0::nat), ses_per_logic_tree_path = 1, oq_insured_losses = 0,
      oq_avg_losses = False\<rparr>
     \<lparr>super_pre_execute = Inr (),
      parent_oqparam = \<lparr>gmfs_in_inputs = False, hazard_calculation_id = None,
        investigation_time = 50, minimum_intensity = 1, ses_per_logic_tree_path = 1,
        oq_insured_losses = 0, oq_avg_losses = False\<rparr>,
      parent_events_eid = [7, 3], datastore_events_eid = [], ebcalc_run = Inl KeyError\<rparr>
     1 1 1 [''structural''] (\<lambda>lt. [10]) (\<lambda>A E. replicate A (replicate E (0::real))) =
   Inl (ValueError ''The parent calculation was using minimum_intensity'')"
proof -
  have t: "truthy (Some 1)" by (simp add: truthy_def)
  show ?thesis
    using t
      parent_mismatch_raises[where
        oq = "\<lparr>gmfs_in_inputs = False, hazard_calculation_id = Some 1, investigation_time = 50,
          minimum_intensity = (0::nat), ses_per_logic_tree_path = 1, oq_insured_losses = 0,
          oq_avg_losses = False\<rparr>"
        and env = "\<lparr>super_pre_execute = Inr (),
          parent_oqparam = \<lparr>gmfs_in_inputs = False, hazard_calculation_id = None,
            investigation_time = 100, minimum_intensity = 0, ses_per_logic_tree_path = 1,
            oq_insured_losses = 0, oq_avg_losses = False\<rparr>,
          parent_events_eid = [7, 3], datastore_events_eid = [], ebcalc_run = Inl KeyError\<rparr>"
        and A = 1 and R = 1 and L = 1 and lts = "[''structural'']" and vals = "\<lambda>lt. [10]"
        and make_epsilon_getter = "\<lambda>A E. replicate A (replicate E (0::real))"]
      parent_mismatch_raises[where
        oq = "\<lparr>gmfs_in_inputs = False, hazard_calculation_id = Some 1, investigation_time = 50,
          minimum_intensity = (0::nat), ses_per_logic_tree_path = 1, oq_insured_losses = 0,
          oq_avg_losses = False\<rparr>"
        and env = "\<lparr>super_pre_execute = Inr (),
          parent_oqparam = \<lparr>gmfs_in_inputs = False, hazard_calculation_id = None,
            investigation_time = 50, minimum_intensity = 1, ses_per_logic_tree_path = 1,
            oq_insured_losses = 0, oq_avg_losses = False\<rparr>,
          parent_events_eid = [7, 3], datastore_events_eid = [], ebcalc_run = Inl KeyError\<rparr>"
        and A = 1 and R = 1 and L = 1 and lts = "[''structural'']" and vals = "\<lambda>lt. [10]"
        and make_epsilon_getter = "\<lambda>A E. replicate A (replicate E (0::real))"]
    by simp
qed

text \<open>
  C10 (frame of \<^verbatim>\<open>save_losses\<close> on the average losses). Saving the result of one task
  keeps the shape of the dataset \<^verbatim>\<open>avg_losses-rlzs\<close> and changes only cells of the assets
  in \<^verbatim>\<open>aids\<close>: the cells of every other asset are as before. A cell \<open>(aid, r, li)\<close> is also
  as before when the average losses of the task have no mapping under the key \<open>(li, r)\<close>
  that mentions \<open>aid\<close>: \<^verbatim>\<open>ratios.get(aid, 0)\<close> is then zero, and zero is what is added.
\<close>

theorem save_losses_frame:
  assumes "save_losses self dic = Inr self'" and "self_dset self = Some d"
  shows "\<exists>d'. self_dset self' = Some d' \<and> shape3 d' = shape3 d \<and>
     (\<forall>aid r li. aid \<notin> set (res_aids dic) \<longrightarrow> get3 d' (aid, r, li) = get3 d (aid, r, li)) \<and>
     (\<forall>aid r li.
        (\<forall>ratios. ((li, r), ratios) \<in> set (res_avglosses dic) \<longrightarrow>
                  (\<exists>m. ratios = Dict m \<and> map_of m aid = None)) \<longrightarrow>
        get3 d' (aid, r, li) = get3 d (aid, r, li))"
proof -
  note f = save_losses_agglosses(10)[OF assms(1), unfolded assms(2)]
  from foldE_save_avglosses[OF f] obtain d' where d': "self_dset self' = Some d'"
    and sh: "shape3 d' = shape3 d"
    and g: "\<And>aid r li. get3 d' (aid, r, li) =
        get3 d (aid, r, li) +
        (\<Sum>item\<leftarrow>res_avglosses dic.
           if aid \<in> set (res_aids dic) \<and> fst item = (li, r)
           then lba_get (snd item) aid *
                self_vals self (self_loss_types self !
                  (if li < self_L self then li else li - self_L self)) ! aid
           else 0)"
    by blast
  have out: "get3 d' (aid, r, li) = get3 d (aid, r, li)" if "aid \<notin> set (res_aids dic)"
    for aid r li
    using that by (simp add: g del: get3.simps)
  have absent: "get3 d' (aid, r, li) = get3 d (aid, r, li)"
    if h: "\<forall>ratios. ((li, r), ratios) \<in> set (res_avglosses dic) \<longrightarrow>
                  (\<exists>m. ratios = Dict m \<and> map_of m aid = None)"
    for aid r li
  proof -
    have "(if aid \<in> set (res_aids dic) \<and> fst item = (li, r)
           then lba_get (snd item) aid *
                self_vals self (self_loss_types self !
                  (if li < self_L self then li else li - self_L self)) ! aid
           else 0) = 0"
      if "item \<in> set (res_avglosses dic)" for item
    proof (cases "fst item = (li, r)")
      case True
      then have "((li, r), snd item) \<in> set (res_avglosses dic)"
        using that by (metis prod.collapse)
      with h obtain m where "snd item = Dict m" "map_of m aid = None" by blast
      then show ?thesis by simp
    next
      case False
      then show ?thesis by simp
    qed
    then have "(\<Sum>item\<leftarrow>res_avglosses dic.
           if aid \<in> set (res_aids dic) \<and> fst item = (li, r)
           then lba_get (snd item) aid *
                self_vals self (self_loss_types self !
                  (if li < self_L self then li else li - self_L self)) ! aid
           else 0) = 0"
      by (intro sum_list_all_zero) auto
    then show ?thesis by (simp only: g add_0_right)
  qed
  from d' sh out absent show ?thesis by blast
qed

theorem save_losses_frame_witness:
  "save_losses
     \<lparr>self_eids = [3, 7], self_E = 2, self_eps = [[0, 0 :: real], [0, 0], [0, 0]], self_A = 3,
      self_R = 1, self_L = 1, self_I = 1, self_loss_types = [''structural''],
      self_vals = (\<lambda>lt. [10, 20, 30]),
      self_agglosses = [[[0]], [[0]]], self_dset = Some [[[1]], [[2]], [[4]]], self_taskno = 0\<rparr>
     \<lparr>res_aids = [0, 1], res_avglosses = [((0, 0), Dict [(1, 1 / 2)])],
      res_agglosses = ([(1, 0, 0)], [5]), res_all_curves = []\<rparr> =
   Inr \<lparr>self_eids = [3, 7], self_E = 2, self_eps = [[0, 0], [0, 0], [0, 0]], self_A = 3,
        self_R = 1, self_L = 1, self_I = 1, self_loss_types = [''structural''],
        self_vals = (\<lambda>lt. [10, 20, 30]),
        self_agglosses = [[[0]], [[5]]], self_dset = Some [[[1]], [[12]], [[4]]],
        self_taskno = 1\<rparr> \<and>
   2 \<notin> set [0, 1 :: nat] \<and>
   get3 [[[1]], [[12]], [[4 :: real]]] (2, 0, 0) = get3 [[[1]], [[2]], [[4]]] (2, 0, 0) \<and>
   0 \<in> set [0, 1 :: nat] \<and> map_of [(1 :: nat, 1 / 2 :: real)] 0 = None \<and>
   get3 [[[1]], [[12]], [[4 :: real]]] (0, 0, 0) = get3 [[[1]], [[2]], [[4]]] (0, 0, 0) \<and>
   get3 [[[1]], [[12]], [[4 :: real]]] (1, 0, 0) = get3 [[[1]], [[2]], [[4]]] (1, 0, 0) + 1 / 2 * 20"
proof -
  have d: "self_dset
     \<lparr>self_eids = [3, 7], self_E = 2, self_eps = [[0, 0 :: real], [0, 0], [0, 0]], self_A = 3,
      self_R = 1, self_L = 1, self_I = 1, self_loss_types = [''structural''],
      self_vals = (\<lambda>lt. [10, 20, 30]),
      self_agglosses = [[[0]], [[0]]], self_dset = Some [[[1]], [[2]], [[4]]], self_taskno = 0\<rparr>
     = Some [[[1]], [[2]], [[4]]]"
    by simp
  show ?thesis
    using save_losses_frame[OF save_losses_example d] save_losses_example by simp
qed




end
